theory Spec2Isabelle
  imports Main
begin

section \<open>The attendance service worker (sw.js)\<close>

text \<open>
  The worker is event-handler glue over the browser's Cache Storage. The model keeps the
  source's structure: every handler is a function from the storage before the event to
  the value the handler resolves to and the storage after all the work it started has
  settled. The browser is a record of host functions (\<open>fetch\<close>, the clock, URL parsing);
  a rejected promise is the \<open>Inl\<close> branch of a sum. \<open>fetch\<close> may reject, and
  \<open>put\<close> rejects the requests and responses the platform refuses; the storage has
  room and is otherwise reliable, so \<open>open\<close>, \<open>match\<close>, \<open>delete\<close> and \<open>keys\<close>
  resolve. \<open>null\<close> and \<open>undefined\<close> are \<open>None\<close>.
\<close>

subsection \<open>Constants of the worker\<close>

definition STATIC_CACHE :: string where
  "STATIC_CACHE = ''attendance-static-v2.0.0''"

definition DYNAMIC_CACHE :: string where
  "DYNAMIC_CACHE = ''attendance-dynamic-v2.0.0''"

definition CORE_FILES :: "string list" where
  "CORE_FILES =
     [''./'',
      ''./index.html'',
      ''./manifest.json'',
      ''https://cdnjs.cloudflare.com/ajax/libs/jspdf/2.5.1/jspdf.umd.min.js'',
      ''https://cdnjs.cloudflare.com/ajax/libs/jspdf-autotable/3.5.31/jspdf.plugin.autotable.min.js'']"

subsection \<open>Requests and responses\<close>

text \<open>
  Header names are kept in lower case, as the platform's \<open>Headers\<close> object normalises
  them, with one combined value per name; \<open>headers.get\<close> answers \<open>null\<close> for a name that
  is absent.
\<close>

text \<open>The field \<open>req_method\<close> is the request's \<open>method\<close>.\<close>

record request =
  url :: string
  req_method :: string
  mode :: string

record response =
  status :: nat
  statusText :: string
  headers :: "(string \<times> string) list"
  body :: string

definition ok :: "response \<Rightarrow> bool" where
  "ok r = (200 \<le> status r \<and> status r \<le> 299)"

definition headers_get :: "(string \<times> string) list \<Rightarrow> string \<Rightarrow> string option" where
  "headers_get hs name = map_of hs name"

subsection \<open>JSON.stringify\<close>

text \<open>
  The values the worker serialises: objects, arrays, strings, booleans, \<open>null\<close> and
  numbers. A number is carried as the text that \<open>JSON.stringify\<close> prints for it.
  Strings are quoted as ECMAScript's QuoteJSONString does.
\<close>

datatype json =
    JNull
  | JBool bool
  | JNumber string
  | JString string
  | JArray "json list"
  | JObject "(string \<times> json) list"

definition hexdigit :: "nat \<Rightarrow> char" where
  "hexdigit d = (if d < 10 then char_of (48 + d) else char_of (87 + d))"

definition escape_char :: "char \<Rightarrow> string" where
  "escape_char c =
     (if c = CHR 0x22 then [CHR 0x5C, CHR 0x22]
      else if c = CHR 0x5C then [CHR 0x5C, CHR 0x5C]
      else if c = CHR 0x08 then [CHR 0x5C, CHR ''b'']
      else if c = CHR 0x0C then [CHR 0x5C, CHR ''f'']
      else if c = CHR 0x0A then [CHR 0x5C, CHR ''n'']
      else if c = CHR 0x0D then [CHR 0x5C, CHR ''r'']
      else if c = CHR 0x09 then [CHR 0x5C, CHR ''t'']
      else if (of_char c :: nat) < 32
        then [CHR 0x5C, CHR ''u'', CHR ''0'', CHR ''0'',
              hexdigit (of_char c div 16), hexdigit (of_char c mod 16)]
      else [c])"

definition QuoteJSONString :: "string \<Rightarrow> string" where
  "QuoteJSONString s = [CHR 0x22] @ concat (map escape_char s) @ [CHR 0x22]"

fun join :: "string \<Rightarrow> string list \<Rightarrow> string" where
  "join sep [] = []"
| "join sep [x] = x"
| "join sep (x # y # ys) = x @ sep @ join sep (y # ys)"

fun JSON_stringify :: "json \<Rightarrow> string" where
  "JSON_stringify JNull = ''null''"
| "JSON_stringify (JBool b) = (if b then ''true'' else ''false'')"
| "JSON_stringify (JNumber text) = text"
| "JSON_stringify (JString s) = QuoteJSONString s"
| "JSON_stringify (JArray xs) = ''['' @ join '','' (map JSON_stringify xs) @ '']''"
| "JSON_stringify (JObject kvs) =
     ''{'' @ join '','' (map (\<lambda>(k, v). QuoteJSONString k @ '':'' @ JSON_stringify v) kvs) @ ''}''"

subsection \<open>The host\<close>

text \<open>
  What the browser supplies. \<open>fetch\<close> either rejects (\<open>Inl\<close>) or resolves with a
  response of any status. \<open>Date_getTime s\<close> is \<open>new Date(s).getTime()\<close> in
  milliseconds, \<open>None\<close> standing for \<open>NaN\<close>; \<open>toISOString\<close> prints a time value.
  \<open>URL_origin\<close> and \<open>URL_pathname\<close> are the fields of \<open>new URL(s)\<close>, and
  \<open>resolve s\<close> is the absolute URL under which the platform files a key given as the
  string \<open>s\<close>, relative to the worker's own location.
\<close>

datatype error = TypeError string

record host =
  fetch :: "request \<Rightarrow> error + response"
  Date_now :: int
  Date_getTime :: "string \<Rightarrow> int option"
  toISOString :: "int \<Rightarrow> string"
  URL_origin :: "string \<Rightarrow> string"
  URL_pathname :: "string \<Rightarrow> string"
  location_origin :: string
  resolve :: "string \<Rightarrow> string"

subsection \<open>Cache Storage\<close>

text \<open>
  A cache is a list of entries, the URL of the stored request and the stored response,
  in insertion order; the storage is a list of named caches in creation order. Stored
  requests are always \<open>GET\<close> requests, since \<open>put\<close> refuses any other.

  The platform compares URLs with the fragment excluded, while \<open>request.url\<close> keeps
  the fragment. Requests are taken to agree on the header fields that a stored
  response's \<open>Vary\<close> names, so that the URL alone tells stored requests apart: one
  payload per resource key, as in the spec's data model.
\<close>

type_synonym cache = "(string \<times> response) list"

type_synonym cache_storage = "(string \<times> cache) list"

definition exclude_fragment :: "string \<Rightarrow> string" where
  "exclude_fragment u = takeWhile (\<lambda>c. c \<noteq> CHR ''#'') u"

text \<open>
  \<open>cache_match c k\<close> is \<open>cache.match\<close> for a \<open>GET\<close> request with URL \<open>k\<close>: the
  response of the first entry whose URL equals \<open>k\<close>, fragments excluded.
  \<open>cache_delete\<close> removes every such entry.
\<close>

definition cache_match :: "cache \<Rightarrow> string \<Rightarrow> response option" where
  "cache_match c k =
     map_of (map (\<lambda>e. (exclude_fragment (fst e), snd e)) c) (exclude_fragment k)"

definition cache_delete :: "cache \<Rightarrow> string \<Rightarrow> cache" where
  "cache_delete c k = filter (\<lambda>e. exclude_fragment (fst e) \<noteq> exclude_fragment k) c"

definition cache_keys :: "cache \<Rightarrow> string list" where
  "cache_keys c = map fst c"

text \<open>
  What \<open>put\<close> refuses with a \<open>TypeError\<close>: a URL whose scheme is not http or https, a
  method other than \<open>GET\<close>, a response of status 206, and a response whose \<open>Vary\<close>
  header has the field value \<open>*\<close>.
\<close>

fun split_on :: "char \<Rightarrow> string \<Rightarrow> string list" where
  "split_on d [] = [[]]"
| "split_on d (c # cs) =
     (if c = d then [] # split_on d cs
      else (case split_on d cs of [] \<Rightarrow> [[c]] | x # xs \<Rightarrow> (c # x) # xs))"

definition trim :: "string \<Rightarrow> string" where
  "trim s =
     rev (dropWhile (\<lambda>c. c = CHR '' '' \<or> c = CHR 0x09)
            (rev (dropWhile (\<lambda>c. c = CHR '' '' \<or> c = CHR 0x09) s)))"

definition vary_star :: "response \<Rightarrow> bool" where
  "vary_star r =
     (case headers_get (headers r) ''vary'' of
        None \<Rightarrow> False
      | Some v \<Rightarrow> ''*'' \<in> set (map trim (split_on (CHR '','') v)))"

definition http_scheme :: "string \<Rightarrow> bool" where
  "http_scheme u = (take 7 u = ''http://'' \<or> take 8 u = ''https://'')"

definition put_rejects :: "request \<Rightarrow> response \<Rightarrow> bool" where
  "put_rejects req r =
     (\<not> http_scheme (url req) \<or> req_method req \<noteq> ''GET'' \<or> status r = 206 \<or> vary_star r)"

text \<open>
  An accepted \<open>put\<close> removes the entries stored for the same URL and appends the new
  entry.
\<close>

definition cache_store :: "cache \<Rightarrow> string \<Rightarrow> response \<Rightarrow> cache" where
  "cache_store c k r = cache_delete c k @ [(k, r)]"

definition caches_keys :: "cache_storage \<Rightarrow> string list" where
  "caches_keys cs = map fst cs"

definition caches_open :: "cache_storage \<Rightarrow> string \<Rightarrow> cache_storage" where
  "caches_open cs name = (if name \<in> set (caches_keys cs) then cs else cs @ [(name, [])])"

definition caches_delete :: "cache_storage \<Rightarrow> string \<Rightarrow> cache_storage" where
  "caches_delete cs name = filter (\<lambda>e. fst e \<noteq> name) cs"

text \<open>
  \<open>caches_match cs k\<close> is \<open>caches.match\<close> for a \<open>GET\<close> request with URL \<open>k\<close>: the
  answer of the first cache, in creation order, that has an entry for it.
\<close>

fun caches_match :: "cache_storage \<Rightarrow> string \<Rightarrow> response option" where
  "caches_match [] k = None"
| "caches_match ((name, c) # cs) k =
     (case cache_match c k of Some r \<Rightarrow> Some r | None \<Rightarrow> caches_match cs k)"

text \<open>
  \<open>match\<close> called with a request object: a request whose method is not \<open>GET\<close>
  matches nothing.
\<close>

definition cache_match_request :: "cache \<Rightarrow> request \<Rightarrow> response option" where
  "cache_match_request c req =
     (if req_method req = ''GET'' then cache_match c (url req) else None)"

definition caches_match_request :: "cache_storage \<Rightarrow> request \<Rightarrow> response option" where
  "caches_match_request cs req =
     (if req_method req = ''GET'' then caches_match cs (url req) else None)"

text \<open>The entries of the cache called \<open>name\<close> (none when there is no such cache).\<close>

definition cache_of :: "cache_storage \<Rightarrow> string \<Rightarrow> cache" where
  "cache_of cs name = (case map_of cs name of None \<Rightarrow> [] | Some c \<Rightarrow> c)"

text \<open>
  A cache object obtained from \<open>caches.open name\<close> is a handle on the named cache:
  an operation through the handle changes that cache inside the storage.
\<close>

definition on_cache :: "string \<Rightarrow> (cache \<Rightarrow> cache) \<Rightarrow> cache_storage \<Rightarrow> cache_storage" where
  "on_cache name f cs = map (\<lambda>e. if fst e = name then (fst e, f (snd e)) else e) cs"

text \<open>\<open>put\<close> through the handle on the cache called \<open>name\<close>.\<close>

definition cache_put ::
  "string \<Rightarrow> request \<Rightarrow> response \<Rightarrow> cache_storage \<Rightarrow> error + cache_storage" where
  "cache_put name req r cs =
     (if put_rejects req r then Inl (TypeError ''Cache.put'')
      else Inr (on_cache name (\<lambda>c. cache_store c (url req) r) cs))"

text \<open>
  The strategies call \<open>put\<close> and neither await nor catch its promise. When it
  resolves the storage is the new one; when it rejects, nothing is stored, nobody
  handles the rejection, and the strategy's answer is the same.
\<close>

definition not_awaited :: "error + cache_storage \<Rightarrow> cache_storage \<Rightarrow> cache_storage" where
  "not_awaited p cs = (case p of Inr cs' \<Rightarrow> cs' | Inl err \<Rightarrow> cs)"

text \<open>
  Names are unique in the storage, and inside each cache URLs are unique, fragments
  excluded.
\<close>

definition wf_storage :: "cache_storage \<Rightarrow> bool" where
  "wf_storage cs =
     (distinct (map fst cs) \<and>
      list_all (\<lambda>e. distinct (map (\<lambda>x. exclude_fragment (fst x)) (snd e))) cs)"

subsection \<open>Activate: removing old caches\<close>

definition activate :: "cache_storage \<Rightarrow> cache_storage" where
  "activate cs =
     foldl (\<lambda>s cacheName.
              if cacheName \<noteq> STATIC_CACHE \<and> cacheName \<noteq> DYNAMIC_CACHE
              then caches_delete s cacheName else s)
           cs (caches_keys cs)"

subsection \<open>The three strategies\<close>

text \<open>
  The synthesized answer of the two \<open>catch\<close> blocks:
  \<open>new Response(JSON.stringify({error, offline: true, timestamp}), {status: 503, ...})\<close>.
\<close>

definition offline_payload :: "host \<Rightarrow> string \<Rightarrow> json" where
  "offline_payload h msg =
     JObject [(''error'', JString msg),
              (''offline'', JBool True),
              (''timestamp'', JString (toISOString h (Date_now h)))]"

definition offline_response :: "host \<Rightarrow> string \<Rightarrow> response" where
  "offline_response h msg =
     \<lparr>status = 503,
      statusText = ''Service Unavailable'',
      headers = [(''content-type'', ''application/json'')],
      body = JSON_stringify (offline_payload h msg)\<rparr>"

text \<open>
  The fallback of both \<open>catch\<close> blocks for navigation requests.
  \<open>caches.match('./index.html')\<close> looks up a \<open>GET\<close> request for the resolved URL.
\<close>

definition navigate_fallback :: "host \<Rightarrow> cache_storage \<Rightarrow> request \<Rightarrow> response option" where
  "navigate_fallback h cs req =
     (if mode req = ''navigate'' then caches_match cs (resolve h ''./index.html'') else None)"

definition cacheFirst ::
  "host \<Rightarrow> cache_storage \<Rightarrow> request \<Rightarrow> response option \<times> cache_storage" where
  "cacheFirst h cs req =
     (case caches_match_request cs req of
        Some cachedResponse \<Rightarrow> (Some cachedResponse, cs)
      | None \<Rightarrow>
          (case fetch h req of
             Inr networkResponse \<Rightarrow>
               (Some networkResponse,
                if ok networkResponse
                then (let cs1 = caches_open cs STATIC_CACHE
                      in not_awaited (cache_put STATIC_CACHE req networkResponse cs1) cs1)
                else cs)
           | Inl err \<Rightarrow>
               (case navigate_fallback h cs req of
                  Some fallbackResponse \<Rightarrow> (Some fallbackResponse, cs)
                | None \<Rightarrow>
                    (Some (offline_response h ''Network error and no cached version available''),
                     cs))))"

definition networkFirst ::
  "host \<Rightarrow> cache_storage \<Rightarrow> request \<Rightarrow> response option \<times> cache_storage" where
  "networkFirst h cs req =
     (case fetch h req of
        Inr networkResponse \<Rightarrow>
          (Some networkResponse,
           if ok networkResponse
           then (let cs1 = caches_open cs DYNAMIC_CACHE
                 in not_awaited (cache_put DYNAMIC_CACHE req networkResponse cs1) cs1)
           else cs)
      | Inl err \<Rightarrow>
          (case caches_match_request cs req of
             Some cachedResponse \<Rightarrow> (Some cachedResponse, cs)
           | None \<Rightarrow>
               (case navigate_fallback h cs req of
                  Some fallbackResponse \<Rightarrow> (Some fallbackResponse, cs)
                | None \<Rightarrow>
                    (Some (offline_response h ''Offline - No network connection''), cs))))"

text \<open>
  \<open>staleWhileRevalidate\<close> opens the dynamic cache, looks the request up in that cache
  only, and starts the fetch in every case. The promise of the fetch resolves to the
  network response, after a \<open>put\<close> into the dynamic cache when the response is \<open>ok\<close>,
  or to \<open>null\<close> when the fetch rejects. The function answers
  \<open>cachedResponse || networkResponsePromise\<close>.
\<close>

definition staleWhileRevalidate ::
  "host \<Rightarrow> cache_storage \<Rightarrow> request \<Rightarrow> response option \<times> cache_storage" where
  "staleWhileRevalidate h cs req =
     (let cs1 = caches_open cs DYNAMIC_CACHE;
          cachedResponse = cache_match_request (cache_of cs1 DYNAMIC_CACHE) req;
          (networkResponse, cs2) =
            (case fetch h req of
               Inr networkResponse \<Rightarrow>
                 (Some networkResponse,
                  if ok networkResponse
                  then not_awaited (cache_put DYNAMIC_CACHE req networkResponse cs1) cs1
                  else cs1)
             | Inl err \<Rightarrow> (None, cs1))
      in (case cachedResponse of
            Some r \<Rightarrow> Some r
          | None \<Rightarrow> networkResponse,
          cs2))"

subsection \<open>The fetch listener\<close>

text \<open>
  The listener answers \<open>None\<close> when it returns without calling \<open>respondWith\<close>, so that
  the browser handles the request itself, and \<open>Some\<close> of the strategy's result otherwise.
\<close>

definition respondWith ::
  "response option \<times> cache_storage \<Rightarrow> response option option \<times> cache_storage" where
  "respondWith p = (Some (fst p), snd p)"

definition fetch_listener ::
  "host \<Rightarrow> cache_storage \<Rightarrow> request \<Rightarrow> response option option \<times> cache_storage" where
  "fetch_listener h cs req =
     (if req_method req \<noteq> ''GET'' then (None, cs)
      else if url req \<in> set CORE_FILES \<or> URL_pathname h (url req) \<in> set CORE_FILES
        then respondWith (cacheFirst h cs req)
      else if URL_origin h (url req) = ''https://cdnjs.cloudflare.com''
        then respondWith (staleWhileRevalidate h cs req)
      else if URL_origin h (url req) = location_origin h
        then respondWith (networkFirst h cs req)
      else respondWith (cacheFirst h cs req))"

subsection \<open>Backup of the attendance data\<close>

text \<open>
  \<open>data\<close> is \<open>None\<close> for \<open>undefined\<close>, which \<open>JSON.stringify\<close> maps to \<open>undefined\<close> and
  \<open>new Response\<close> to an empty body. The key is a \<open>GET\<close> request for the resolved
  string. Here the \<open>put\<close> is awaited inside \<open>try\<close>: a rejection is caught and logged.
\<close>

definition cacheAttendanceData :: "host \<Rightarrow> cache_storage \<Rightarrow> json option \<Rightarrow> cache_storage" where
  "cacheAttendanceData h cs data =
     (let response =
            \<lparr>status = 200,
             statusText = '''',
             headers = [(''content-type'', ''application/json'')],
             body = (case data of None \<Rightarrow> '''' | Some d \<Rightarrow> JSON_stringify d)\<rparr>;
          cs1 = caches_open cs DYNAMIC_CACHE
      in (case cache_put DYNAMIC_CACHE
                 \<lparr>url = resolve h ''attendance-data-backup'', req_method = ''GET'', mode = ''cors''\<rparr>
                 response cs1 of
            Inr cs2 \<Rightarrow> cs2
          | Inl err \<Rightarrow> cs1))"

subsection \<open>Cleanup of old entries\<close>

text \<open>
  The loop over the keys read at the start: the stored requests, all \<open>GET\<close>, each
  standing here as its URL. Reading \<open>headers\<close> of an \<open>undefined\<close>
  response throws; the \<open>catch\<close> around the loop ends the cleanup there. A header that is
  absent or empty is falsy; a date that does not parse is \<open>NaN\<close>, and \<open>NaN < t\<close> is false.
\<close>

fun cleanup_loop :: "host \<Rightarrow> int \<Rightarrow> string list \<Rightarrow> cache_storage \<Rightarrow> cache_storage" where
  "cleanup_loop h thirtyDaysAgo [] cs = cs"
| "cleanup_loop h thirtyDaysAgo (request # requests) cs =
     (case cache_match (cache_of cs DYNAMIC_CACHE) request of
        None \<Rightarrow> cs
      | Some response \<Rightarrow>
          (case headers_get (headers response) ''date'' of
             None \<Rightarrow> cleanup_loop h thirtyDaysAgo requests cs
           | Some dateHeader \<Rightarrow>
               if dateHeader \<noteq> [] then
                 (case Date_getTime h dateHeader of
                    None \<Rightarrow> cleanup_loop h thirtyDaysAgo requests cs
                  | Some responseDate \<Rightarrow>
                      if responseDate < thirtyDaysAgo
                      then cleanup_loop h thirtyDaysAgo requests
                             (on_cache DYNAMIC_CACHE (\<lambda>c. cache_delete c request) cs)
                      else cleanup_loop h thirtyDaysAgo requests cs)
               else cleanup_loop h thirtyDaysAgo requests cs))"

definition performCleanup :: "host \<Rightarrow> cache_storage \<Rightarrow> cache_storage" where
  "performCleanup h cs =
     (let cs1 = caches_open cs DYNAMIC_CACHE;
          requests = cache_keys (cache_of cs1 DYNAMIC_CACHE);
          thirtyDaysAgo = Date_now h - (30 * 24 * 60 * 60 * 1000)
      in cleanup_loop h thirtyDaysAgo requests cs1)"

text \<open>
  The stored timestamp of an entry, as the cleanup reads it: the time value of the
  response's \<open>date\<close> header, when the header is there, not empty, and parses.
\<close>

definition stored_timestamp :: "host \<Rightarrow> response \<Rightarrow> int option" where
  "stored_timestamp h r =
     (case headers_get (headers r) ''date'' of
        None \<Rightarrow> None
      | Some dateHeader \<Rightarrow> if dateHeader = [] then None else Date_getTime h dateHeader)"

definition thirty_days :: int where
  "thirty_days = 2592000000"

subsection \<open>Sample values\<close>

text \<open>
  A small host and storage to run the worker on. The clock stands at
  2023-11-14T22:13:20Z; the host parses the four date strings below and no other;
  \<open>fetch\<close> is left open.
\<close>

definition sample_dates :: "(string \<times> int) list" where
  "sample_dates =
     [(''Tue, 14 Nov 2023 22:13:20 GMT'', 1700000000000),
      (''Sun, 15 Oct 2023 22:13:20 GMT'', 1697408000000),
      (''Sun, 15 Oct 2023 22:13:19 GMT'', 1697407999000),
      (''Sun, 01 Jan 2023 00:00:00 GMT'', 1672531200000)]"

definition sample_host :: "(request \<Rightarrow> error + response) \<Rightarrow> host" where
  "sample_host f =
     \<lparr>fetch = f,
      Date_now = 1700000000000,
      Date_getTime = map_of sample_dates,
      toISOString = (\<lambda>t. ''2023-11-14T22:13:20.000Z''),
      URL_origin = (\<lambda>s. take 8 s @ takeWhile (\<lambda>c. c \<noteq> CHR ''/'') (drop 8 s)),
      URL_pathname =
        (\<lambda>s. takeWhile (\<lambda>c. c \<noteq> CHR ''?'' \<and> c \<noteq> CHR ''#'')
               (dropWhile (\<lambda>c. c \<noteq> CHR ''/'') (drop 8 s))),
      location_origin = ''https://office.example'',
      resolve = (\<lambda>s. ''https://office.example/'' @ (if take 2 s = ''./'' then drop 2 s else s))\<rparr>"

definition offline :: "request \<Rightarrow> error + response" where
  "offline req = Inl (TypeError ''Failed to fetch'')"

definition online :: "response \<Rightarrow> request \<Rightarrow> error + response" where
  "online r req = Inr r"

definition page :: "nat \<Rightarrow> (string \<times> string) list \<Rightarrow> string \<Rightarrow> response" where
  "page st hs b = \<lparr>status = st, statusText = '''', headers = hs, body = b\<rparr>"

definition get :: "string \<Rightarrow> string \<Rightarrow> request" where
  "get u m = \<lparr>url = u, req_method = ''GET'', mode = m\<rparr>"

definition post :: "string \<Rightarrow> request" where
  "post u = \<lparr>url = u, req_method = ''POST'', mode = ''cors''\<rparr>"

definition sample_storage :: cache_storage where
  "sample_storage =
     [(''attendance-system-v1.0.0'',
         [(''https://office.example/old.css'', page 200 [] ''old'')]),
      (STATIC_CACHE,
         [(''https://office.example/index.html'', page 200 [] ''<html>''),
          (''https://fonts.example/a.woff'',
             page 200 [(''date'', ''Sun, 01 Jan 2023 00:00:00 GMT'')] ''font'')]),
      (DYNAMIC_CACHE,
         [(''https://office.example/api/today'',
             page 200 [(''date'', ''Sun, 15 Oct 2023 22:13:19 GMT'')] ''[1]''),
          (''https://office.example/api/staff'',
             page 200 [(''date'', ''Sun, 15 Oct 2023 22:13:20 GMT'')] ''[2]''),
          (''https://office.example/attendance-data-backup'',
             page 200 [(''content-type'', ''application/json'')] ''{}''),
          (''https://office.example/api/odd'',
             page 200 [(''date'', ''yesterday'')] ''[3]'')])]"

text \<open>
  Three scripts of the CDN: the first is one of the \<open>CORE_FILES\<close>, the others are not.
  \<open>cdn_storage\<close> is the storage of a worker that has answered one request for each
  of the first two while online.
\<close>

definition jspdf_url :: string where
  "jspdf_url = ''https://cdnjs.cloudflare.com/ajax/libs/jspdf/2.5.1/jspdf.umd.min.js''"

definition chart_url :: string where
  "chart_url = ''https://cdnjs.cloudflare.com/ajax/libs/Chart.js/4.4.0/chart.umd.js''"

definition moment_url :: string where
  "moment_url = ''https://cdnjs.cloudflare.com/ajax/libs/moment.js/2.29.4/moment.min.js''"

definition cdn_storage :: cache_storage where
  "cdn_storage =
     [(STATIC_CACHE, [(jspdf_url, page 200 [] ''jspdf'')]),
      (DYNAMIC_CACHE, [(chart_url, page 200 [] ''chart'')])]"

section \<open>Properties of the storage operations\<close>

lemma STATIC_neq_DYNAMIC: "STATIC_CACHE \<noteq> DYNAMIC_CACHE"
  by (simp add: STATIC_CACHE_def DYNAMIC_CACHE_def)

lemma map_of_on_cache:
  "map_of (on_cache name f cs) n = (if n = name then map_option f (map_of cs n) else map_of cs n)"
  by (induction cs) (auto simp: on_cache_def)

lemma map_of_caches_open:
  "map_of (caches_open cs name) n =
     (if n = name \<and> map_of cs name = None then Some [] else map_of cs n)"
proof (cases "name \<in> set (caches_keys cs)")
  case True
  then have "map_of cs name \<noteq> None"
    by (simp add: caches_keys_def map_of_eq_None_iff)
  with True show ?thesis
    by (simp add: caches_open_def)
next
  case False
  then have "map_of cs name = None"
    by (simp add: caches_keys_def map_of_eq_None_iff)
  with False show ?thesis
    by (simp add: caches_open_def map_add_def split: option.splits)
qed

lemma map_of_caches_open_other: "n \<noteq> name \<Longrightarrow> map_of (caches_open cs name) n = map_of cs n"
  by (simp add: map_of_caches_open)

lemma cache_of_caches_open: "cache_of (caches_open cs name) n = cache_of cs n"
  by (auto simp: cache_of_def map_of_caches_open)

lemma cache_of_on_cache_other: "n \<noteq> name \<Longrightarrow> cache_of (on_cache name f cs) n = cache_of cs n"
  by (simp add: cache_of_def map_of_on_cache)

lemma cache_of_on_cache_same:
  "map_of cs name \<noteq> None \<or> f [] = [] \<Longrightarrow> cache_of (on_cache name f cs) name = f (cache_of cs name)"
  by (auto simp: cache_of_def map_of_on_cache split: option.splits)

lemma cache_of_open_put:
  "cache_of (on_cache name f (caches_open cs name)) name = f (cache_of cs name)"
  by (auto simp: cache_of_def map_of_on_cache map_of_caches_open split: option.splits)

lemma cache_match_fragment:
  "exclude_fragment k = exclude_fragment k' \<Longrightarrow> cache_match c k = cache_match c k'"
  by (simp add: cache_match_def)

lemma cache_match_None_iff:
  "cache_match c k = None \<longleftrightarrow> exclude_fragment k \<notin> (\<lambda>x. exclude_fragment (fst x)) ` set c"
  by (force simp: cache_match_def map_of_eq_None_iff)

lemma cache_match_entry:
  assumes "distinct (map (\<lambda>x. exclude_fragment (fst x)) c)" and "e \<in> set c"
    and "exclude_fragment (fst e) = exclude_fragment k"
  shows "cache_match c k = Some (snd e)"
proof -
  let ?c = "map (\<lambda>e. (exclude_fragment (fst e), snd e)) c"
  have "distinct (map fst ?c)"
    using assms(1) by (simp add: comp_def)
  moreover have "(exclude_fragment k, snd e) \<in> set ?c"
    using assms(2,3) by force
  ultimately have "map_of ?c (exclude_fragment k) = Some (snd e)"
    by (rule map_of_is_SomeI)
  then show ?thesis
    by (simp add: cache_match_def)
qed

lemma cache_match_store:
  "cache_match (cache_store c k r) k' =
     (if exclude_fragment k' = exclude_fragment k then Some r else cache_match c k')"
proof (induction c)
  case Nil
  then show ?case
    by (simp add: cache_match_def cache_store_def cache_delete_def)
next
  case (Cons e c)
  then show ?case
    by (auto simp: cache_match_def cache_store_def cache_delete_def)
qed

lemma cache_store_Nil_neq: "cache_store c k r \<noteq> []"
  by (simp add: cache_store_def)

lemma cache_put_accepted:
  "\<not> put_rejects req r \<Longrightarrow>
   not_awaited (cache_put name req r cs) cs = on_cache name (\<lambda>c. cache_store c (url req) r) cs"
  by (simp add: not_awaited_def cache_put_def)

lemma cache_put_rejected:
  "put_rejects req r \<Longrightarrow> not_awaited (cache_put name req r cs) cs = cs"
  by (simp add: not_awaited_def cache_put_def)

lemma map_of_not_awaited_put:
  "n \<noteq> name \<Longrightarrow> map_of (not_awaited (cache_put name req r cs) cs) n = map_of cs n"
  by (simp add: not_awaited_def cache_put_def map_of_on_cache)

lemma wf_cache_of:
  "wf_storage cs \<Longrightarrow> distinct (map (\<lambda>x. exclude_fragment (fst x)) (cache_of cs name))"
  by (auto simp: wf_storage_def cache_of_def list_all_iff split: option.splits dest!: map_of_SomeD)

section \<open>The cleanup loop\<close>

lemma cleanup_loop_other:
  "n \<noteq> DYNAMIC_CACHE \<Longrightarrow> map_of (cleanup_loop h t ks cs) n = map_of cs n"
  by (induction ks arbitrary: cs) (auto simp: map_of_on_cache split: option.splits)

lemma cache_of_delete:
  "cache_of (on_cache name (\<lambda>c. cache_delete c k) cs) name = cache_delete (cache_of cs name) k"
  by (rule cache_of_on_cache_same) (simp add: cache_delete_def)

lemma cleanup_loop_dynamic:
  "\<lbrakk>distinct (map (\<lambda>x. exclude_fragment (fst x)) (cache_of cs DYNAMIC_CACHE));
    distinct (map exclude_fragment ks);
    exclude_fragment ` set ks \<subseteq> (\<lambda>x. exclude_fragment (fst x)) ` set (cache_of cs DYNAMIC_CACHE)\<rbrakk>
   \<Longrightarrow> cache_of (cleanup_loop h t ks cs) DYNAMIC_CACHE =
       filter (\<lambda>e. \<not> (exclude_fragment (fst e) \<in> exclude_fragment ` set ks \<and>
                       (case stored_timestamp h (snd e) of None \<Rightarrow> False | Some d \<Rightarrow> d < t)))
              (cache_of cs DYNAMIC_CACHE)"
proof (induction ks arbitrary: cs)
  case Nil
  then show ?case by simp
next
  case (Cons k ks)
  let ?c = "cache_of cs DYNAMIC_CACHE"
  let ?key = "\<lambda>x. exclude_fragment (fst x)"
  let ?old = "\<lambda>r. case stored_timestamp h r of None \<Rightarrow> False | Some d \<Rightarrow> d < t"
  from Cons.prems(3) obtain e0 where e0: "e0 \<in> set ?c" "?key e0 = exclude_fragment k"
    by auto
  define r where "r = snd e0"
  have r: "cache_match ?c k = Some r"
    unfolding r_def using Cons.prems(1) e0 by (rule cache_match_entry)
  have only: "\<And>e. e \<in> set ?c \<Longrightarrow> ?key e = exclude_fragment k \<Longrightarrow> snd e = r"
  proof -
    fix e assume "e \<in> set ?c" "?key e = exclude_fragment k"
    with Cons.prems(1) have "cache_match ?c k = Some (snd e)"
      by (rule cache_match_entry)
    with r show "snd e = r" by simp
  qed
  have ks: "exclude_fragment k \<notin> exclude_fragment ` set ks" "distinct (map exclude_fragment ks)"
    "exclude_fragment ` set ks \<subseteq> ?key ` set ?c"
    using Cons.prems by auto
  show ?case
  proof (cases "?old r")
    case True
    let ?cs' = "on_cache DYNAMIC_CACHE (\<lambda>c. cache_delete c k) cs"
    have step: "cleanup_loop h t (k # ks) cs = cleanup_loop h t ks ?cs'"
      using r True
      by (auto simp: stored_timestamp_def split: option.splits if_splits)
    have c': "cache_of ?cs' DYNAMIC_CACHE = cache_delete ?c k"
      by (rule cache_of_delete)
    have "distinct (map ?key (cache_delete ?c k))"
      using Cons.prems(1) by (simp add: cache_delete_def distinct_map_filter)
    moreover have "exclude_fragment ` set ks \<subseteq> ?key ` set (cache_delete ?c k)"
    proof
      fix x assume x: "x \<in> exclude_fragment ` set ks"
      with ks(3) obtain e where "e \<in> set ?c" "?key e = x" by auto
      moreover from x ks(1) have "x \<noteq> exclude_fragment k" by blast
      ultimately show "x \<in> ?key ` set (cache_delete ?c k)"
        by (force simp: cache_delete_def)
    qed
    ultimately have
      "cache_of (cleanup_loop h t ks ?cs') DYNAMIC_CACHE =
         filter (\<lambda>e. \<not> (?key e \<in> exclude_fragment ` set ks \<and> ?old (snd e))) (cache_delete ?c k)"
      using Cons.IH [of ?cs'] ks(2) by (simp add: c')
    also have "\<dots> = filter (\<lambda>e. \<not> (?key e \<in> exclude_fragment ` set (k # ks) \<and> ?old (snd e))) ?c"
      unfolding cache_delete_def filter_filter
      by (rule filter_cong) (use True only in auto)
    finally show ?thesis by (simp only: step)
  next
    case False
    have step: "cleanup_loop h t (k # ks) cs = cleanup_loop h t ks cs"
      using r False
      by (auto simp: stored_timestamp_def split: option.splits if_splits)
    have "cache_of (cleanup_loop h t ks cs) DYNAMIC_CACHE =
            filter (\<lambda>e. \<not> (?key e \<in> exclude_fragment ` set ks \<and> ?old (snd e))) ?c"
      using Cons.IH [of cs] Cons.prems(1) ks by simp
    also have "\<dots> = filter (\<lambda>e. \<not> (?key e \<in> exclude_fragment ` set (k # ks) \<and> ?old (snd e))) ?c"
      by (rule filter_cong) (use False only in auto)
    finally show ?thesis by (simp only: step)
  qed
qed

lemma performCleanup_other:
  "n \<noteq> DYNAMIC_CACHE \<Longrightarrow> map_of (performCleanup h cs) n = map_of cs n"
  by (simp add: performCleanup_def Let_def cleanup_loop_other map_of_caches_open_other)

lemma performCleanup_dynamic:
  assumes "wf_storage cs"
  shows "cache_of (performCleanup h cs) DYNAMIC_CACHE =
           filter (\<lambda>e. case stored_timestamp h (snd e) of
                          None \<Rightarrow> True
                        | Some d \<Rightarrow> \<not> d < Date_now h - thirty_days)
                  (cache_of cs DYNAMIC_CACHE)"
proof -
  let ?c = "cache_of cs DYNAMIC_CACHE"
  let ?cs1 = "caches_open cs DYNAMIC_CACHE"
  let ?key = "\<lambda>x. exclude_fragment (fst x)"
  have d: "distinct (map ?key ?c)"
    using assms by (rule wf_cache_of)
  then have d': "distinct (map exclude_fragment (map fst ?c))"
    by (simp add: comp_def)
  have c1: "cache_of ?cs1 DYNAMIC_CACHE = ?c"
    by (rule cache_of_caches_open)
  have sub: "exclude_fragment ` set (map fst ?c) \<subseteq> ?key ` set ?c"
    by auto
  have "cache_of (cleanup_loop h (Date_now h - thirty_days) (map fst ?c) ?cs1) DYNAMIC_CACHE =
          filter (\<lambda>e. \<not> (?key e \<in> exclude_fragment ` set (map fst ?c) \<and>
                   (case stored_timestamp h (snd e) of None \<Rightarrow> False
                    | Some d \<Rightarrow> d < Date_now h - thirty_days))) ?c"
    using cleanup_loop_dynamic [of ?cs1 "map fst ?c" h "Date_now h - thirty_days"] d d' sub
    by (simp only: c1)
  also have "\<dots> = filter (\<lambda>e. case stored_timestamp h (snd e) of
                          None \<Rightarrow> True
                        | Some d \<Rightarrow> \<not> d < Date_now h - thirty_days) ?c"
    by (rule filter_cong) (auto split: option.splits)
  finally show ?thesis
    by (simp add: performCleanup_def Let_def cache_keys_def c1 thirty_days_def)
qed

lemma cache_match_filter:
  assumes "distinct (map (\<lambda>x. exclude_fragment (fst x)) c)"
  shows "cache_match (filter (\<lambda>e. Q (snd e)) c) k =
     (case cache_match c k of None \<Rightarrow> None | Some r \<Rightarrow> if Q r then Some r else None)"
proof (cases "cache_match c k")
  case None
  then have "exclude_fragment k \<notin> (\<lambda>x. exclude_fragment (fst x)) ` set (filter (\<lambda>e. Q (snd e)) c)"
    by (auto simp: cache_match_None_iff)
  then have "cache_match (filter (\<lambda>e. Q (snd e)) c) k = None"
    by (simp only: cache_match_None_iff not_False_eq_True)
  with None show ?thesis by simp
next
  case (Some r)
  then obtain e where e: "e \<in> set c" "exclude_fragment (fst e) = exclude_fragment k"
    by (cases "exclude_fragment k \<in> (\<lambda>x. exclude_fragment (fst x)) ` set c")
       (auto simp: cache_match_None_iff [symmetric])
  with assms have "cache_match c k = Some (snd e)"
    by (rule cache_match_entry)
  with Some have re: "snd e = r" by simp
  have only: "\<And>e'. e' \<in> set c \<Longrightarrow> exclude_fragment (fst e') = exclude_fragment k \<Longrightarrow> snd e' = r"
  proof -
    fix e' assume "e' \<in> set c" "exclude_fragment (fst e') = exclude_fragment k"
    with assms have "cache_match c k = Some (snd e')"
      by (rule cache_match_entry)
    with Some show "snd e' = r" by simp
  qed
  show ?thesis
  proof (cases "Q r")
    case True
    have "distinct (map (\<lambda>x. exclude_fragment (fst x)) (filter (\<lambda>e. Q (snd e)) c))"
      using assms by (rule distinct_map_filter)
    moreover have "e \<in> set (filter (\<lambda>e. Q (snd e)) c)"
      using e re True by simp
    ultimately have "cache_match (filter (\<lambda>e. Q (snd e)) c) k = Some (snd e)"
      using e(2) by (rule cache_match_entry)
    with Some True re show ?thesis by simp
  next
    case False
    have "exclude_fragment k \<notin> (\<lambda>x. exclude_fragment (fst x)) ` set (filter (\<lambda>e. Q (snd e)) c)"
      using False only by auto
    then have "cache_match (filter (\<lambda>e. Q (snd e)) c) k = None"
      by (simp only: cache_match_None_iff not_False_eq_True)
    with Some False show ?thesis by simp
  qed
qed

section \<open>Activation\<close>


lemma activate_fold:
  "foldl (\<lambda>s cacheName.
            if cacheName \<noteq> STATIC_CACHE \<and> cacheName \<noteq> DYNAMIC_CACHE
            then caches_delete s cacheName else s) s ns =
   filter (\<lambda>e. \<not> (fst e \<in> set ns \<and> fst e \<noteq> STATIC_CACHE \<and> fst e \<noteq> DYNAMIC_CACHE)) s"
proof (induction ns arbitrary: s)
  case Nil
  then show ?case by simp
next
  case (Cons n ns)
  show ?case
    by (auto simp: Cons.IH caches_delete_def intro!: filter_cong)
qed

lemma activate_filter:
  "activate cs = filter (\<lambda>e. fst e = STATIC_CACHE \<or> fst e = DYNAMIC_CACHE) cs"
  unfolding activate_def activate_fold caches_keys_def
  by (rule filter_cong) auto

lemma map_of_filter_key:
  "P k \<Longrightarrow> map_of (filter (\<lambda>e. P (fst e)) xs) k = map_of xs k"
  by (induction xs) auto

section \<open>Well-formedness is kept by every handler\<close>

lemma wf_empty: "wf_storage []"
  by (simp add: wf_storage_def)

lemma distinct_cache_delete:
  "distinct (map (\<lambda>x. exclude_fragment (fst x)) c) \<Longrightarrow>
   distinct (map (\<lambda>x. exclude_fragment (fst x)) (cache_delete c k))"
  by (simp add: cache_delete_def distinct_map_filter)

lemma distinct_cache_store:
  "distinct (map (\<lambda>x. exclude_fragment (fst x)) c) \<Longrightarrow>
   distinct (map (\<lambda>x. exclude_fragment (fst x)) (cache_store c k r))"
  by (auto simp: cache_store_def cache_delete_def distinct_map_filter)

lemma map_fst_on_cache: "map fst (on_cache name f cs) = map fst cs"
  by (induction cs) (auto simp: on_cache_def)

lemma wf_caches_open: "wf_storage cs \<Longrightarrow> wf_storage (caches_open cs name)"
  by (auto simp: wf_storage_def caches_open_def caches_keys_def)

lemma wf_on_cache:
  assumes "wf_storage cs"
    and "\<And>c. distinct (map (\<lambda>x. exclude_fragment (fst x)) c) \<Longrightarrow>
              distinct (map (\<lambda>x. exclude_fragment (fst x)) (f c))"
  shows "wf_storage (on_cache name f cs)"
proof -
  have "list_all (\<lambda>e. distinct (map (\<lambda>x. exclude_fragment (fst x)) (snd e))) (on_cache name f cs)"
    using assms by (auto simp: wf_storage_def on_cache_def list_all_iff)
  with assms(1) show ?thesis
    by (simp add: wf_storage_def map_fst_on_cache)
qed

lemma wf_not_awaited_put:
  "wf_storage cs \<Longrightarrow> wf_storage (not_awaited (cache_put name req r cs) cs)"
  by (auto simp: not_awaited_def cache_put_def intro!: wf_on_cache distinct_cache_store)

lemma wf_open_put:
  "wf_storage cs \<Longrightarrow>
   wf_storage (not_awaited (cache_put name req r (caches_open cs name)) (caches_open cs name))"
  by (intro wf_not_awaited_put wf_caches_open)

lemma wf_activate: "wf_storage cs \<Longrightarrow> wf_storage (activate cs)"
  by (auto simp: activate_filter wf_storage_def distinct_map_filter list_all_iff)

lemma wf_cacheFirst: "wf_storage cs \<Longrightarrow> wf_storage (snd (cacheFirst h cs req))"
  by (auto simp: cacheFirst_def Let_def wf_open_put split: option.splits sum.splits)

lemma wf_networkFirst: "wf_storage cs \<Longrightarrow> wf_storage (snd (networkFirst h cs req))"
  by (auto simp: networkFirst_def Let_def wf_open_put split: option.splits sum.splits)

lemma wf_staleWhileRevalidate:
  "wf_storage cs \<Longrightarrow> wf_storage (snd (staleWhileRevalidate h cs req))"
  by (auto simp: staleWhileRevalidate_def Let_def wf_open_put wf_caches_open
           split: option.splits sum.splits prod.splits)

lemma wf_fetch_listener: "wf_storage cs \<Longrightarrow> wf_storage (snd (fetch_listener h cs req))"
  by (simp add: fetch_listener_def respondWith_def wf_cacheFirst wf_networkFirst
        wf_staleWhileRevalidate)

lemma wf_cacheAttendanceData: "wf_storage cs \<Longrightarrow> wf_storage (cacheAttendanceData h cs data)"
proof -
  assume wf: "wf_storage cs"
  let ?cs1 = "caches_open cs DYNAMIC_CACHE"
  have "wf_storage ?cs1"
    using wf by (rule wf_caches_open)
  then show ?thesis
    by (auto simp: cacheAttendanceData_def Let_def cache_put_def
             intro!: wf_on_cache distinct_cache_store split: sum.splits if_splits)
qed

lemma wf_cleanup_loop: "wf_storage cs \<Longrightarrow> wf_storage (cleanup_loop h t ks cs)"
proof (induction ks arbitrary: cs)
  case Nil
  then show ?case by simp
next
  case (Cons k ks)
  have "wf_storage (on_cache DYNAMIC_CACHE (\<lambda>c. cache_delete c k) cs)"
    using Cons.prems by (intro wf_on_cache distinct_cache_delete)
  with Cons show ?case
    by (auto split: option.splits)
qed

lemma wf_performCleanup: "wf_storage cs \<Longrightarrow> wf_storage (performCleanup h cs)"
  by (simp add: performCleanup_def Let_def wf_cleanup_loop wf_caches_open)

section \<open>Claims about cleanup\<close>

subsection \<open>Cleanup\<close>

lemma performCleanup_lookup:
  assumes "wf_storage cs"
  shows "cache_match (cache_of (performCleanup h cs) DYNAMIC_CACHE) k =
           (case cache_match (cache_of cs DYNAMIC_CACHE) k of
              None \<Rightarrow> None
            | Some r \<Rightarrow>
                (case stored_timestamp h r of
                   None \<Rightarrow> Some r
                 | Some t \<Rightarrow> if t < Date_now h - thirty_days then None else Some r))"
proof -
  let ?Q = "\<lambda>r. case stored_timestamp h r of
                   None \<Rightarrow> True
                 | Some d \<Rightarrow> \<not> d < Date_now h - thirty_days"
  have "cache_match (filter (\<lambda>e. ?Q (snd e)) (cache_of cs DYNAMIC_CACHE)) k =
          (case cache_match (cache_of cs DYNAMIC_CACHE) k of
             None \<Rightarrow> None
           | Some r \<Rightarrow> if ?Q r then Some r else None)"
    using wf_cache_of [OF assms, of DYNAMIC_CACHE] by (rule cache_match_filter)
  then show ?thesis
    by (simp add: performCleanup_dynamic [OF assms] split: option.splits)
qed

text \<open>
  Claim C3. Over a well-formed storage, the cleanup removes from the dynamic cache every
  entry whose stored timestamp lies more than thirty days before the clock, keeps every
  entry whose timestamp is thirty days old or newer, keeps every entry that has no
  timestamp, adds nothing, and leaves every other cache as it was.
\<close>

theorem performCleanup_thirty_days:
  assumes "wf_storage cs"
  shows
    "(\<forall>k r t. cache_match (cache_of cs DYNAMIC_CACHE) k = Some r \<and>
              stored_timestamp h r = Some t \<and> thirty_days < Date_now h - t \<longrightarrow>
        cache_match (cache_of (performCleanup h cs) DYNAMIC_CACHE) k = None) \<and>
     (\<forall>k r t. cache_match (cache_of cs DYNAMIC_CACHE) k = Some r \<and>
              stored_timestamp h r = Some t \<and> Date_now h - t \<le> thirty_days \<longrightarrow>
        cache_match (cache_of (performCleanup h cs) DYNAMIC_CACHE) k = Some r) \<and>
     (\<forall>k r. cache_match (cache_of cs DYNAMIC_CACHE) k = Some r \<and>
            stored_timestamp h r = None \<longrightarrow>
        cache_match (cache_of (performCleanup h cs) DYNAMIC_CACHE) k = Some r) \<and>
     (\<forall>k. cache_match (cache_of cs DYNAMIC_CACHE) k = None \<longrightarrow>
        cache_match (cache_of (performCleanup h cs) DYNAMIC_CACHE) k = None) \<and>
     (\<forall>name. name \<noteq> DYNAMIC_CACHE \<longrightarrow>
        map_of (performCleanup h cs) name = map_of cs name)"
proof (intro conjI allI impI)
  fix k r t
  assume "cache_match (cache_of cs DYNAMIC_CACHE) k = Some r \<and>
          stored_timestamp h r = Some t \<and> thirty_days < Date_now h - t"
  then show "cache_match (cache_of (performCleanup h cs) DYNAMIC_CACHE) k = None"
    by (simp add: performCleanup_lookup [OF assms])
next
  fix k r t
  assume "cache_match (cache_of cs DYNAMIC_CACHE) k = Some r \<and>
          stored_timestamp h r = Some t \<and> Date_now h - t \<le> thirty_days"
  then show "cache_match (cache_of (performCleanup h cs) DYNAMIC_CACHE) k = Some r"
    by (simp add: performCleanup_lookup [OF assms])
next
  fix k r
  assume "cache_match (cache_of cs DYNAMIC_CACHE) k = Some r \<and> stored_timestamp h r = None"
  then show "cache_match (cache_of (performCleanup h cs) DYNAMIC_CACHE) k = Some r"
    by (simp add: performCleanup_lookup [OF assms])
next
  fix k
  assume "cache_match (cache_of cs DYNAMIC_CACHE) k = None"
  then show "cache_match (cache_of (performCleanup h cs) DYNAMIC_CACHE) k = None"
    by (simp add: performCleanup_lookup [OF assms])
next
  fix name :: string
  assume "name \<noteq> DYNAMIC_CACHE"
  then show "map_of (performCleanup h cs) name = map_of cs name"
    by (rule performCleanup_other)
qed

subsection \<open>The sample storage\<close>

lemma wf_sample_storage: "wf_storage sample_storage"
  by (simp add: wf_storage_def sample_storage_def STATIC_CACHE_def DYNAMIC_CACHE_def exclude_fragment_def)

lemma cache_of_sample_dynamic:
  "cache_of sample_storage DYNAMIC_CACHE =
     [(''https://office.example/api/today'',
         page 200 [(''date'', ''Sun, 15 Oct 2023 22:13:19 GMT'')] ''[1]''),
      (''https://office.example/api/staff'',
         page 200 [(''date'', ''Sun, 15 Oct 2023 22:13:20 GMT'')] ''[2]''),
      (''https://office.example/attendance-data-backup'',
         page 200 [(''content-type'', ''application/json'')] ''{}''),
      (''https://office.example/api/odd'',
         page 200 [(''date'', ''yesterday'')] ''[3]'')]"
  by (simp add: cache_of_def sample_storage_def STATIC_CACHE_def DYNAMIC_CACHE_def)

lemma cache_of_sample_static:
  "map_of sample_storage STATIC_CACHE =
     Some [(''https://office.example/index.html'', page 200 [] ''<html>''),
           (''https://fonts.example/a.woff'',
              page 200 [(''date'', ''Sun, 01 Jan 2023 00:00:00 GMT'')] ''font'')]"
  by (simp add: sample_storage_def STATIC_CACHE_def DYNAMIC_CACHE_def)

theorem performCleanup_thirty_days_witness:
  "wf_storage sample_storage \<and>
   cache_match (cache_of (performCleanup (sample_host offline) sample_storage) DYNAMIC_CACHE)
     ''https://office.example/api/today'' = None \<and>
   cache_match (cache_of (performCleanup (sample_host offline) sample_storage) DYNAMIC_CACHE)
     ''https://office.example/api/staff'' =
       Some (page 200 [(''date'', ''Sun, 15 Oct 2023 22:13:20 GMT'')] ''[2]'') \<and>
   cache_match (cache_of (performCleanup (sample_host offline) sample_storage) DYNAMIC_CACHE)
     ''https://office.example/api/odd'' = Some (page 200 [(''date'', ''yesterday'')] ''[3]'') \<and>
   cache_match (cache_of (performCleanup (sample_host offline) sample_storage) DYNAMIC_CACHE)
     ''https://office.example/nowhere'' = None \<and>
   map_of (performCleanup (sample_host offline) sample_storage) STATIC_CACHE =
     map_of sample_storage STATIC_CACHE"
proof -
  let ?h = "sample_host offline"
  note main = performCleanup_thirty_days [OF wf_sample_storage, of ?h]
  have old: "cache_match (cache_of sample_storage DYNAMIC_CACHE) ''https://office.example/api/today'' =
               Some (page 200 [(''date'', ''Sun, 15 Oct 2023 22:13:19 GMT'')] ''[1]'') \<and>
             stored_timestamp ?h (page 200 [(''date'', ''Sun, 15 Oct 2023 22:13:19 GMT'')] ''[1]'') =
               Some 1697407999000 \<and>
             thirty_days < Date_now ?h - 1697407999000"
    by (simp add: cache_of_sample_dynamic cache_match_def exclude_fragment_def stored_timestamp_def headers_get_def
          page_def sample_host_def sample_dates_def thirty_days_def)
  have new: "cache_match (cache_of sample_storage DYNAMIC_CACHE) ''https://office.example/api/staff'' =
               Some (page 200 [(''date'', ''Sun, 15 Oct 2023 22:13:20 GMT'')] ''[2]'') \<and>
             stored_timestamp ?h (page 200 [(''date'', ''Sun, 15 Oct 2023 22:13:20 GMT'')] ''[2]'') =
               Some 1697408000000 \<and>
             Date_now ?h - 1697408000000 \<le> thirty_days"
    by (simp add: cache_of_sample_dynamic cache_match_def exclude_fragment_def stored_timestamp_def headers_get_def
          page_def sample_host_def sample_dates_def thirty_days_def)
  have odd: "cache_match (cache_of sample_storage DYNAMIC_CACHE) ''https://office.example/api/odd'' =
               Some (page 200 [(''date'', ''yesterday'')] ''[3]'') \<and>
             stored_timestamp ?h (page 200 [(''date'', ''yesterday'')] ''[3]'') = None"
    by (simp add: cache_of_sample_dynamic cache_match_def exclude_fragment_def stored_timestamp_def headers_get_def
          page_def sample_host_def sample_dates_def)
  have none: "cache_match (cache_of sample_storage DYNAMIC_CACHE) ''https://office.example/nowhere'' = None"
    by (simp add: cache_of_sample_dynamic cache_match_def exclude_fragment_def)
  have neq: "STATIC_CACHE \<noteq> DYNAMIC_CACHE"
    by (rule STATIC_neq_DYNAMIC)
  from main old new odd none neq wf_sample_storage show ?thesis
    by blast
qed

text \<open>
  Claim C10. An entry of the dynamic cache whose response has no \<open>date\<close> header is
  still there after the cleanup, whatever the clock of the host says.
\<close>

theorem performCleanup_keeps_undated:
  assumes "wf_storage cs"
    and "cache_match (cache_of cs DYNAMIC_CACHE) k = Some r"
    and "headers_get (headers r) ''date'' = None"
  shows "cache_match (cache_of (performCleanup h cs) DYNAMIC_CACHE) k = Some r"
  using assms(2,3)
  by (simp add: performCleanup_lookup [OF assms(1)] stored_timestamp_def)

theorem performCleanup_keeps_undated_witness:
  "wf_storage sample_storage \<and>
   cache_match (cache_of sample_storage DYNAMIC_CACHE) ''https://office.example/attendance-data-backup'' =
     Some (page 200 [(''content-type'', ''application/json'')] ''{}'') \<and>
   headers_get (headers (page 200 [(''content-type'', ''application/json'')] ''{}'')) ''date'' = None \<and>
   cache_match (cache_of (performCleanup (sample_host offline) sample_storage) DYNAMIC_CACHE)
     ''https://office.example/attendance-data-backup'' =
     Some (page 200 [(''content-type'', ''application/json'')] ''{}'')"
proof -
  have a: "cache_match (cache_of sample_storage DYNAMIC_CACHE) ''https://office.example/attendance-data-backup'' =
     Some (page 200 [(''content-type'', ''application/json'')] ''{}'')"
    by (simp add: cache_of_sample_dynamic cache_match_def exclude_fragment_def)
  have b: "headers_get (headers (page 200 [(''content-type'', ''application/json'')] ''{}'')) ''date'' = None"
    by (simp add: headers_get_def page_def)
  from performCleanup_keeps_undated [OF wf_sample_storage a b, of "sample_host offline"]
    wf_sample_storage a b
  show ?thesis by simp
qed

section \<open>Claims about activation, dispatch and the partition of writes\<close>

text \<open>
  Claim C7. After activation no cache is left under a name other than the current
  static and dynamic names, and the caches under those two names are what they were:
  the storage is the old one restricted to the two current names.
\<close>

theorem activate_keeps_current_only:
  "(\<forall>name. name \<noteq> STATIC_CACHE \<and> name \<noteq> DYNAMIC_CACHE \<longrightarrow>
       name \<notin> set (caches_keys (activate cs))) \<and>
   map_of (activate cs) STATIC_CACHE = map_of cs STATIC_CACHE \<and>
   map_of (activate cs) DYNAMIC_CACHE = map_of cs DYNAMIC_CACHE \<and>
   activate cs = filter (\<lambda>e. fst e = STATIC_CACHE \<or> fst e = DYNAMIC_CACHE) cs"
proof (intro conjI allI impI)
  fix name :: string
  assume "name \<noteq> STATIC_CACHE \<and> name \<noteq> DYNAMIC_CACHE"
  then show "name \<notin> set (caches_keys (activate cs))"
    by (auto simp: activate_filter caches_keys_def)
next
  show "map_of (activate cs) STATIC_CACHE = map_of cs STATIC_CACHE"
    unfolding activate_filter
    by (rule map_of_filter_key [of "\<lambda>n. n = STATIC_CACHE \<or> n = DYNAMIC_CACHE"]) simp
next
  show "map_of (activate cs) DYNAMIC_CACHE = map_of cs DYNAMIC_CACHE"
    unfolding activate_filter
    by (rule map_of_filter_key [of "\<lambda>n. n = STATIC_CACHE \<or> n = DYNAMIC_CACHE"]) simp
next
  show "activate cs = filter (\<lambda>e. fst e = STATIC_CACHE \<or> fst e = DYNAMIC_CACHE) cs"
    by (rule activate_filter)
qed

theorem activate_keeps_current_only_witness:
  "''attendance-system-v1.0.0'' \<in> set (caches_keys sample_storage) \<and>
   ''attendance-system-v1.0.0'' \<noteq> STATIC_CACHE \<and>
   ''attendance-system-v1.0.0'' \<noteq> DYNAMIC_CACHE \<and>
   ''attendance-system-v1.0.0'' \<notin> set (caches_keys (activate sample_storage)) \<and>
   map_of (activate sample_storage) STATIC_CACHE =
     Some [(''https://office.example/index.html'', page 200 [] ''<html>''),
           (''https://fonts.example/a.woff'',
              page 200 [(''date'', ''Sun, 01 Jan 2023 00:00:00 GMT'')] ''font'')]"
proof -
  have a: "''attendance-system-v1.0.0'' \<in> set (caches_keys sample_storage)"
    by (simp add: caches_keys_def sample_storage_def)
  have b: "''attendance-system-v1.0.0'' \<noteq> STATIC_CACHE \<and>
           ''attendance-system-v1.0.0'' \<noteq> DYNAMIC_CACHE"
    by (simp add: STATIC_CACHE_def DYNAMIC_CACHE_def)
  note main = activate_keeps_current_only [of sample_storage]
  from main b have c: "''attendance-system-v1.0.0'' \<notin> set (caches_keys (activate sample_storage))"
    by blast
  from main have d: "map_of (activate sample_storage) STATIC_CACHE = map_of sample_storage STATIC_CACHE"
    by blast
  from a b c d cache_of_sample_static show ?thesis
    by simp
qed

text \<open>
  Claim C8. For a request whose method is not GET the fetch listener returns without
  calling \<open>respondWith\<close>: no strategy runs, and the storage is the one it was.
\<close>

theorem fetch_listener_ignores_non_GET:
  assumes "req_method req \<noteq> ''GET''"
  shows "fetch_listener h cs req = (None, cs)"
  using assms by (simp add: fetch_listener_def)

theorem fetch_listener_ignores_non_GET_witness:
  "req_method (post ''https://office.example/api/checkin'') \<noteq> ''GET'' \<and>
   fetch_listener (sample_host (online (page 200 [] ''ok''))) sample_storage
     (post ''https://office.example/api/checkin'') = (None, sample_storage)"
proof -
  have m: "req_method (post ''https://office.example/api/checkin'') \<noteq> ''GET''"
    by (simp add: post_def)
  from fetch_listener_ignores_non_GET [OF m] m show ?thesis
    by simp
qed

text \<open>
  Claim C9. \<open>cacheFirst\<close> changes no cache but the static one; \<open>networkFirst\<close>,
  \<open>staleWhileRevalidate\<close> and \<open>cacheAttendanceData\<close> change no cache but the dynamic
  one; the cleanup changes no cache but the dynamic one, so the static cache that
  \<open>cacheFirst\<close> leaves behind is the same after any cleanup.
\<close>

theorem writes_partitioned_by_strategy:
  "(\<forall>name. name \<noteq> STATIC_CACHE \<longrightarrow>
       map_of (snd (cacheFirst h cs req)) name = map_of cs name) \<and>
   (\<forall>name. name \<noteq> DYNAMIC_CACHE \<longrightarrow>
       map_of (snd (networkFirst h cs req)) name = map_of cs name) \<and>
   (\<forall>name. name \<noteq> DYNAMIC_CACHE \<longrightarrow>
       map_of (snd (staleWhileRevalidate h cs req)) name = map_of cs name) \<and>
   (\<forall>name. name \<noteq> DYNAMIC_CACHE \<longrightarrow>
       map_of (cacheAttendanceData h cs data) name = map_of cs name) \<and>
   (\<forall>name. name \<noteq> DYNAMIC_CACHE \<longrightarrow>
       map_of (performCleanup h' cs) name = map_of cs name) \<and>
   map_of (performCleanup h' (snd (cacheFirst h cs req))) STATIC_CACHE =
     map_of (snd (cacheFirst h cs req)) STATIC_CACHE"
proof (intro conjI allI impI)
  fix name :: string
  assume "name \<noteq> STATIC_CACHE"
  then show "map_of (snd (cacheFirst h cs req)) name = map_of cs name"
    by (simp add: cacheFirst_def Let_def map_of_not_awaited_put map_of_caches_open
          split: option.splits sum.splits)
next
  fix name :: string
  assume "name \<noteq> DYNAMIC_CACHE"
  then show "map_of (snd (networkFirst h cs req)) name = map_of cs name"
    by (simp add: networkFirst_def Let_def map_of_not_awaited_put map_of_caches_open
          split: option.splits sum.splits)
next
  fix name :: string
  assume "name \<noteq> DYNAMIC_CACHE"
  then show "map_of (snd (staleWhileRevalidate h cs req)) name = map_of cs name"
    by (simp add: staleWhileRevalidate_def Let_def map_of_not_awaited_put map_of_caches_open
          split: option.splits sum.splits prod.splits)
next
  fix name :: string
  assume "name \<noteq> DYNAMIC_CACHE"
  then show "map_of (cacheAttendanceData h cs data) name = map_of cs name"
    by (simp add: cacheAttendanceData_def Let_def cache_put_def map_of_on_cache
          map_of_caches_open split: sum.splits)
next
  fix name :: string
  assume "name \<noteq> DYNAMIC_CACHE"
  then show "map_of (performCleanup h' cs) name = map_of cs name"
    by (rule performCleanup_other)
next
  show "map_of (performCleanup h' (snd (cacheFirst h cs req))) STATIC_CACHE =
          map_of (snd (cacheFirst h cs req)) STATIC_CACHE"
    by (rule performCleanup_other) (rule STATIC_neq_DYNAMIC)
qed

theorem writes_partitioned_by_strategy_witness:
  "STATIC_CACHE \<noteq> DYNAMIC_CACHE \<and>
   map_of (snd (cacheFirst (sample_host (online (page 200 [] ''ok''))) sample_storage
                  (get ''https://img.example/logo.png'' ''no-cors''))) DYNAMIC_CACHE =
     map_of sample_storage DYNAMIC_CACHE \<and>
   map_of (snd (networkFirst (sample_host (online (page 200 [] ''ok''))) sample_storage
                  (get ''https://office.example/api/month'' ''cors''))) STATIC_CACHE =
     map_of sample_storage STATIC_CACHE \<and>
   map_of (snd (staleWhileRevalidate (sample_host (online (page 200 [] ''ok''))) sample_storage
                  (get ''https://cdnjs.cloudflare.com/ajax/libs/x.js'' ''no-cors''))) STATIC_CACHE =
     map_of sample_storage STATIC_CACHE \<and>
   map_of (cacheAttendanceData (sample_host offline) sample_storage (Some (JArray []))) STATIC_CACHE =
     map_of sample_storage STATIC_CACHE \<and>
   map_of (performCleanup (sample_host offline) sample_storage) STATIC_CACHE =
     map_of sample_storage STATIC_CACHE"
proof -
  have neq: "STATIC_CACHE \<noteq> DYNAMIC_CACHE" "DYNAMIC_CACHE \<noteq> STATIC_CACHE"
    using STATIC_neq_DYNAMIC by simp_all
  have a: "map_of (snd (cacheFirst (sample_host (online (page 200 [] ''ok''))) sample_storage
                  (get ''https://img.example/logo.png'' ''no-cors''))) DYNAMIC_CACHE =
     map_of sample_storage DYNAMIC_CACHE"
    using writes_partitioned_by_strategy neq by blast
  have b: "map_of (snd (networkFirst (sample_host (online (page 200 [] ''ok''))) sample_storage
                  (get ''https://office.example/api/month'' ''cors''))) STATIC_CACHE =
     map_of sample_storage STATIC_CACHE"
    using writes_partitioned_by_strategy neq by blast
  have c: "map_of (snd (staleWhileRevalidate (sample_host (online (page 200 [] ''ok''))) sample_storage
                  (get ''https://cdnjs.cloudflare.com/ajax/libs/x.js'' ''no-cors''))) STATIC_CACHE =
     map_of sample_storage STATIC_CACHE"
    using writes_partitioned_by_strategy neq by blast
  have d: "map_of (cacheAttendanceData (sample_host offline) sample_storage (Some (JArray []))) STATIC_CACHE =
     map_of sample_storage STATIC_CACHE"
    using writes_partitioned_by_strategy neq by blast
  have e: "map_of (performCleanup (sample_host offline) sample_storage) STATIC_CACHE =
     map_of sample_storage STATIC_CACHE"
    using writes_partitioned_by_strategy neq by blast
  from neq a b c d e show ?thesis by simp
qed

section \<open>The strategies\<close>

lemma cache_match_Nil: "cache_match [] k = None"
  by (simp add: cache_match_def)

lemma caches_match_append:
  "caches_match (cs @ cs') k =
     (case caches_match cs k of Some r \<Rightarrow> Some r | None \<Rightarrow> caches_match cs' k)"
  by (induction cs k rule: caches_match.induct) (auto split: option.splits)

lemma caches_match_caches_open: "caches_match (caches_open cs name) k = caches_match cs k"
  by (simp add: caches_open_def caches_match_append cache_match_Nil split: option.splits)

lemma caches_open_has_name: "name \<in> fst ` set (caches_open cs name)"
  by (auto simp: caches_open_def caches_keys_def)

lemma caches_match_after_store:
  "\<lbrakk>name \<in> fst ` set cs; caches_match cs k = None\<rbrakk>
   \<Longrightarrow> caches_match (on_cache name (\<lambda>c. cache_store c k r) cs) k = Some r"
proof (induction cs k rule: caches_match.induct)
  case (1 k)
  then show ?case by simp
next
  case (2 n c cs k)
  then show ?case
    by (auto simp: on_cache_def cache_match_store split: option.splits)
qed

lemma caches_match_open_store:
  "caches_match cs k = None \<Longrightarrow>
   caches_match (on_cache name (\<lambda>c. cache_store c k r) (caches_open cs name)) k = Some r"
  by (rule caches_match_after_store) (simp_all add: caches_open_has_name caches_match_caches_open)

lemma cache_match_open_store:
  "cache_match (cache_of (on_cache name (\<lambda>c. cache_store c k r) (caches_open cs name)) name) k' =
     (if exclude_fragment k' = exclude_fragment k then Some r else cache_match (cache_of cs name) k')"
  by (simp add: cache_of_open_put cache_match_store)

lemma map_of_open_store_other:
  "n \<noteq> name \<Longrightarrow>
   map_of (on_cache name f (caches_open cs name)) n = map_of cs n"
  by (simp add: map_of_on_cache map_of_caches_open)

lemma navigate_fallback_None:
  "mode req \<noteq> ''navigate'' \<or> caches_match cs (resolve h ''./index.html'') = None \<Longrightarrow>
   navigate_fallback h cs req = None"
  by (auto simp: navigate_fallback_def)

lemma navigate_fallback_Some:
  "\<lbrakk>mode req = ''navigate''; caches_match cs (resolve h ''./index.html'') = Some fb\<rbrakk> \<Longrightarrow>
   navigate_fallback h cs req = Some fb"
  by (simp add: navigate_fallback_def)

subsection \<open>cacheFirst, case by case\<close>

lemma cacheFirst_cached:
  "caches_match_request cs req = Some r \<Longrightarrow> cacheFirst h cs req = (Some r, cs)"
  by (simp add: cacheFirst_def)

lemma cacheFirst_fetched_stored:
  "\<lbrakk>caches_match_request cs req = None; fetch h req = Inr net; ok net; \<not> put_rejects req net\<rbrakk> \<Longrightarrow>
   cacheFirst h cs req =
     (Some net, on_cache STATIC_CACHE (\<lambda>c. cache_store c (url req) net) (caches_open cs STATIC_CACHE))"
  by (simp add: cacheFirst_def Let_def cache_put_accepted)

lemma cacheFirst_fetched_refused:
  "\<lbrakk>caches_match_request cs req = None; fetch h req = Inr net; ok net; put_rejects req net\<rbrakk> \<Longrightarrow>
   cacheFirst h cs req = (Some net, caches_open cs STATIC_CACHE)"
  by (simp add: cacheFirst_def Let_def cache_put_rejected)

lemma cacheFirst_fetched_not_ok:
  "\<lbrakk>caches_match_request cs req = None; fetch h req = Inr net; \<not> ok net\<rbrakk> \<Longrightarrow>
   cacheFirst h cs req = (Some net, cs)"
  by (simp add: cacheFirst_def)

lemma cacheFirst_fallback:
  "\<lbrakk>caches_match_request cs req = None; fetch h req = Inl e; mode req = ''navigate'';
    caches_match cs (resolve h ''./index.html'') = Some fb\<rbrakk> \<Longrightarrow>
   cacheFirst h cs req = (Some fb, cs)"
  by (simp add: cacheFirst_def navigate_fallback_Some)

lemma cacheFirst_offline:
  "\<lbrakk>caches_match_request cs req = None; fetch h req = Inl e;
    mode req \<noteq> ''navigate'' \<or> caches_match cs (resolve h ''./index.html'') = None\<rbrakk> \<Longrightarrow>
   cacheFirst h cs req =
     (Some (offline_response h ''Network error and no cached version available''), cs)"
  by (simp add: cacheFirst_def navigate_fallback_None)

lemma cacheFirst_responds: "\<exists>r. fst (cacheFirst h cs req) = Some r"
  by (simp add: cacheFirst_def split: option.splits sum.splits)

subsection \<open>networkFirst, case by case\<close>

lemma networkFirst_fetched_stored:
  "\<lbrakk>fetch h req = Inr net; ok net; \<not> put_rejects req net\<rbrakk> \<Longrightarrow>
   networkFirst h cs req =
     (Some net, on_cache DYNAMIC_CACHE (\<lambda>c. cache_store c (url req) net) (caches_open cs DYNAMIC_CACHE))"
  by (simp add: networkFirst_def Let_def cache_put_accepted)

lemma networkFirst_fetched_refused:
  "\<lbrakk>fetch h req = Inr net; ok net; put_rejects req net\<rbrakk> \<Longrightarrow>
   networkFirst h cs req = (Some net, caches_open cs DYNAMIC_CACHE)"
  by (simp add: networkFirst_def Let_def cache_put_rejected)

lemma networkFirst_fetched_not_ok:
  "\<lbrakk>fetch h req = Inr net; \<not> ok net\<rbrakk> \<Longrightarrow> networkFirst h cs req = (Some net, cs)"
  by (simp add: networkFirst_def)

lemma networkFirst_cached:
  "\<lbrakk>fetch h req = Inl e; caches_match_request cs req = Some r\<rbrakk> \<Longrightarrow>
   networkFirst h cs req = (Some r, cs)"
  by (simp add: networkFirst_def)

lemma networkFirst_fallback:
  "\<lbrakk>fetch h req = Inl e; caches_match_request cs req = None; mode req = ''navigate'';
    caches_match cs (resolve h ''./index.html'') = Some fb\<rbrakk> \<Longrightarrow>
   networkFirst h cs req = (Some fb, cs)"
  by (simp add: networkFirst_def navigate_fallback_Some)

lemma networkFirst_offline:
  "\<lbrakk>fetch h req = Inl e; caches_match_request cs req = None;
    mode req \<noteq> ''navigate'' \<or> caches_match cs (resolve h ''./index.html'') = None\<rbrakk> \<Longrightarrow>
   networkFirst h cs req = (Some (offline_response h ''Offline - No network connection''), cs)"
  by (simp add: networkFirst_def navigate_fallback_None)

lemma networkFirst_responds: "\<exists>r. fst (networkFirst h cs req) = Some r"
  by (simp add: networkFirst_def split: option.splits sum.splits)

subsection \<open>staleWhileRevalidate, case by case\<close>

lemma staleWhileRevalidate_result:
  "fst (staleWhileRevalidate h cs req) =
     (case cache_match_request (cache_of cs DYNAMIC_CACHE) req of
        Some r \<Rightarrow> Some r
      | None \<Rightarrow> (case fetch h req of Inr net \<Rightarrow> Some net | Inl e \<Rightarrow> None))"
  by (simp add: staleWhileRevalidate_def Let_def cache_of_caches_open
        split: option.splits sum.splits prod.splits)

lemma staleWhileRevalidate_storage:
  "snd (staleWhileRevalidate h cs req) =
     (case fetch h req of
        Inr net \<Rightarrow>
          if ok net \<and> \<not> put_rejects req net
          then on_cache DYNAMIC_CACHE (\<lambda>c. cache_store c (url req) net) (caches_open cs DYNAMIC_CACHE)
          else caches_open cs DYNAMIC_CACHE
      | Inl e \<Rightarrow> caches_open cs DYNAMIC_CACHE)"
  by (simp add: staleWhileRevalidate_def Let_def cache_put_accepted cache_put_rejected
        split: option.splits sum.splits prod.splits)

lemma caches_open_present: "name \<in> set (caches_keys cs) \<Longrightarrow> caches_open cs name = cs"
  by (simp add: caches_open_def)

subsection \<open>The synthesized answer\<close>

lemma offline_response_fields:
  "offline_response h msg =
     \<lparr>status = 503, statusText = ''Service Unavailable'',
      headers = [(''content-type'', ''application/json'')],
      body = JSON_stringify (JObject [(''error'', JString msg), (''offline'', JBool True),
                                      (''timestamp'', JString (toISOString h (Date_now h)))])\<rparr>"
  by (simp add: offline_response_def offline_payload_def)

lemma offline_uncached_gives_503:
  assumes "fetch h req = Inl e" and "caches_match_request cs req = None"
    and "mode req \<noteq> ''navigate'' \<or> caches_match cs (resolve h ''./index.html'') = None"
  shows "\<exists>r1 r2. cacheFirst h cs req = (Some r1, cs) \<and> networkFirst h cs req = (Some r2, cs) \<and>
           status r1 = 503 \<and> status r2 = 503"
  using assms
  by (simp add: cacheFirst_offline [of cs req h e] networkFirst_offline [of h req e cs]
        offline_response_fields)

section \<open>Claims about cache-first and network-first\<close>

subsection \<open>Lookups in the sample storage\<close>

lemma sample_match_font:
  "caches_match_request sample_storage (get ''https://fonts.example/a.woff#regular'' ''no-cors'') =
     Some (page 200 [(''date'', ''Sun, 01 Jan 2023 00:00:00 GMT'')] ''font'')"
  by (simp add: caches_match_request_def get_def sample_storage_def cache_match_def
        exclude_fragment_def)

lemma sample_match_index:
  "caches_match sample_storage ''https://office.example/index.html'' = Some (page 200 [] ''<html>'')"
  by (simp add: sample_storage_def cache_match_def exclude_fragment_def)

lemma sample_match_staff:
  "caches_match_request sample_storage (get ''https://office.example/api/staff#top'' ''cors'') =
     Some (page 200 [(''date'', ''Sun, 15 Oct 2023 22:13:20 GMT'')] ''[2]'')"
  by (simp add: caches_match_request_def get_def sample_storage_def cache_match_def
        exclude_fragment_def)

lemma sample_match_logo:
  "caches_match_request sample_storage (get ''https://img.example/logo.png'' ''no-cors'') = None"
  by (simp add: caches_match_request_def get_def sample_storage_def cache_match_def
        exclude_fragment_def)

lemma sample_match_guide:
  "caches_match_request sample_storage (get ''https://docs.example/guide'' ''navigate'') = None"
  by (simp add: caches_match_request_def get_def sample_storage_def cache_match_def
        exclude_fragment_def)

lemma sample_match_report:
  "caches_match_request sample_storage (get ''https://office.example/report'' ''navigate'') = None"
  by (simp add: caches_match_request_def get_def sample_storage_def cache_match_def
        exclude_fragment_def)

lemma sample_match_month:
  "caches_match_request sample_storage (get ''https://office.example/api/month'' ''cors'') = None"
  by (simp add: caches_match_request_def get_def sample_storage_def cache_match_def
        exclude_fragment_def)

lemma sample_resolve_index:
  "resolve (sample_host f) ''./index.html'' = ''https://office.example/index.html''"
  by (simp add: sample_host_def)

lemma sample_fetch: "fetch (sample_host f) req = f req"
  by (simp add: sample_host_def)

lemma put_accepts_get_https:
  "\<lbrakk>take 8 u = ''https://''; st \<noteq> 206\<rbrakk> \<Longrightarrow> \<not> put_rejects (get u m) (page st [] b)"
  by (simp add: put_rejects_def http_scheme_def get_def page_def vary_star_def headers_get_def)

lemma put_rejects_206: "put_rejects req (page 206 hs b)"
  by (simp add: put_rejects_def page_def)

text \<open>
  Claim C4. \<open>cacheFirst\<close> answers the stored copy when \<open>caches.match\<close> finds one in
  some cache, and then touches nothing. Otherwise it fetches and answers the network
  response. A successful response that the cache accepts is stored under the request's
  URL in the static cache, where a later lookup finds it, every other entry and cache
  staying as it was; after an unsuccessful response the storage is the one it was, and
  after a response that \<open>put\<close> refuses no cache has gained or lost an entry. When the
  fetch fails, a navigation request gets the cached \<open>./index.html\<close> if there is one,
  and every other case gets the synthesized error response; the storage is unchanged.
\<close>

theorem cacheFirst_behaviour:
  "(\<forall>r. caches_match_request cs req = Some r \<longrightarrow> cacheFirst h cs req = (Some r, cs)) \<and>
   (\<forall>net. caches_match_request cs req = None \<and> fetch h req = Inr net \<longrightarrow>
      fst (cacheFirst h cs req) = Some net) \<and>
   (\<forall>net. caches_match_request cs req = None \<and> fetch h req = Inr net \<and> ok net \<and>
          \<not> put_rejects req net \<longrightarrow>
      cache_match (cache_of (snd (cacheFirst h cs req)) STATIC_CACHE) (url req) = Some net \<and>
      caches_match_request (snd (cacheFirst h cs req)) req = Some net \<and>
      (\<forall>k. exclude_fragment k \<noteq> exclude_fragment (url req) \<longrightarrow>
         cache_match (cache_of (snd (cacheFirst h cs req)) STATIC_CACHE) k =
         cache_match (cache_of cs STATIC_CACHE) k) \<and>
      (\<forall>name. name \<noteq> STATIC_CACHE \<longrightarrow>
         map_of (snd (cacheFirst h cs req)) name = map_of cs name)) \<and>
   (\<forall>net. caches_match_request cs req = None \<and> fetch h req = Inr net \<and> \<not> ok net \<longrightarrow>
      cacheFirst h cs req = (Some net, cs)) \<and>
   (\<forall>net. caches_match_request cs req = None \<and> fetch h req = Inr net \<and> ok net \<and>
          put_rejects req net \<longrightarrow>
      (\<forall>name. cache_of (snd (cacheFirst h cs req)) name = cache_of cs name)) \<and>
   (\<forall>e fb. caches_match_request cs req = None \<and> fetch h req = Inl e \<and>
      mode req = ''navigate'' \<and> caches_match cs (resolve h ''./index.html'') = Some fb \<longrightarrow>
      cacheFirst h cs req = (Some fb, cs)) \<and>
   (\<forall>e. caches_match_request cs req = None \<and> fetch h req = Inl e \<and>
      (mode req \<noteq> ''navigate'' \<or> caches_match cs (resolve h ''./index.html'') = None) \<longrightarrow>
      cacheFirst h cs req =
        (Some (offline_response h ''Network error and no cached version available''), cs))"
proof (intro conjI allI impI)
  fix r
  assume "caches_match_request cs req = Some r"
  then show "cacheFirst h cs req = (Some r, cs)"
    by (rule cacheFirst_cached)
next
  fix net
  assume "caches_match_request cs req = None \<and> fetch h req = Inr net"
  then show "fst (cacheFirst h cs req) = Some net"
    by (simp add: cacheFirst_def)
next
  fix net
  assume a: "caches_match_request cs req = None \<and> fetch h req = Inr net \<and> ok net \<and>
             \<not> put_rejects req net"
  then have eq: "cacheFirst h cs req =
      (Some net, on_cache STATIC_CACHE (\<lambda>c. cache_store c (url req) net) (caches_open cs STATIC_CACHE))"
    by (simp add: cacheFirst_fetched_stored)
  from a have get: "req_method req = ''GET''"
    by (auto simp: put_rejects_def)
  with a have none: "caches_match cs (url req) = None"
    by (simp add: caches_match_request_def)
  show "cache_match (cache_of (snd (cacheFirst h cs req)) STATIC_CACHE) (url req) = Some net"
    by (simp add: eq cache_match_open_store)
  show "caches_match_request (snd (cacheFirst h cs req)) req = Some net"
    using none by (simp add: eq caches_match_request_def get caches_match_open_store)
  {
    fix k
    assume "exclude_fragment k \<noteq> exclude_fragment (url req)"
    then show "cache_match (cache_of (snd (cacheFirst h cs req)) STATIC_CACHE) k =
               cache_match (cache_of cs STATIC_CACHE) k"
      by (simp add: eq cache_match_open_store)
  }
  {
    fix name :: string
    assume "name \<noteq> STATIC_CACHE"
    then show "map_of (snd (cacheFirst h cs req)) name = map_of cs name"
      by (simp add: eq map_of_open_store_other)
  }
next
  fix net
  assume "caches_match_request cs req = None \<and> fetch h req = Inr net \<and> \<not> ok net"
  then show "cacheFirst h cs req = (Some net, cs)"
    by (simp add: cacheFirst_fetched_not_ok)
next
  fix net name
  assume "caches_match_request cs req = None \<and> fetch h req = Inr net \<and> ok net \<and>
          put_rejects req net"
  then show "cache_of (snd (cacheFirst h cs req)) name = cache_of cs name"
    by (simp add: cacheFirst_fetched_refused cache_of_caches_open)
next
  fix e fb
  assume "caches_match_request cs req = None \<and> fetch h req = Inl e \<and>
      mode req = ''navigate'' \<and> caches_match cs (resolve h ''./index.html'') = Some fb"
  then show "cacheFirst h cs req = (Some fb, cs)"
    by (simp add: cacheFirst_fallback)
next
  fix e
  assume "caches_match_request cs req = None \<and> fetch h req = Inl e \<and>
      (mode req \<noteq> ''navigate'' \<or> caches_match cs (resolve h ''./index.html'') = None)"
  then show "cacheFirst h cs req =
        (Some (offline_response h ''Network error and no cached version available''), cs)"
    using cacheFirst_offline [of cs req h e] by blast
qed

theorem cacheFirst_behaviour_witness:
  "cacheFirst (sample_host offline) sample_storage
       (get ''https://fonts.example/a.woff#regular'' ''no-cors'') =
     (Some (page 200 [(''date'', ''Sun, 01 Jan 2023 00:00:00 GMT'')] ''font''), sample_storage) \<and>
   fst (cacheFirst (sample_host (online (page 200 [] ''ok''))) sample_storage
          (get ''https://img.example/logo.png'' ''no-cors'')) = Some (page 200 [] ''ok'') \<and>
   caches_match_request
     (snd (cacheFirst (sample_host (online (page 200 [] ''ok''))) sample_storage
          (get ''https://img.example/logo.png'' ''no-cors'')))
     (get ''https://img.example/logo.png'' ''no-cors'') = Some (page 200 [] ''ok'') \<and>
   cacheFirst (sample_host (online (page 404 [] ''gone''))) sample_storage
       (get ''https://img.example/logo.png'' ''no-cors'') =
     (Some (page 404 [] ''gone''), sample_storage) \<and>
   cache_of (snd (cacheFirst (sample_host (online (page 206 [] ''part''))) sample_storage
       (get ''https://img.example/logo.png'' ''no-cors''))) STATIC_CACHE =
     cache_of sample_storage STATIC_CACHE \<and>
   cacheFirst (sample_host offline) sample_storage (get ''https://docs.example/guide'' ''navigate'') =
     (Some (page 200 [] ''<html>''), sample_storage) \<and>
   cacheFirst (sample_host offline) sample_storage (get ''https://img.example/logo.png'' ''no-cors'') =
     (Some (offline_response (sample_host offline) ''Network error and no cached version available''),
      sample_storage)"
proof -
  let ?font = "get ''https://fonts.example/a.woff#regular'' ''no-cors''"
  let ?logo = "get ''https://img.example/logo.png'' ''no-cors''"
  let ?guide = "get ''https://docs.example/guide'' ''navigate''"
  have c1: "caches_match_request sample_storage ?font =
              Some (page 200 [(''date'', ''Sun, 01 Jan 2023 00:00:00 GMT'')] ''font'')"
    by (rule sample_match_font)
  have c2: "caches_match_request sample_storage ?logo = None \<and>
            fetch (sample_host (online (page 200 [] ''ok''))) ?logo = Inr (page 200 [] ''ok'') \<and>
            ok (page 200 [] ''ok'') \<and> \<not> put_rejects ?logo (page 200 [] ''ok'')"
    by (simp add: sample_match_logo sample_fetch online_def ok_def page_def [of 200]
          put_accepts_get_https [unfolded page_def])
  have c3: "caches_match_request sample_storage ?logo = None \<and>
            fetch (sample_host (online (page 404 [] ''gone''))) ?logo = Inr (page 404 [] ''gone'') \<and>
            \<not> ok (page 404 [] ''gone'')"
    by (simp add: sample_match_logo sample_fetch online_def ok_def page_def)
  have c4: "caches_match_request sample_storage ?logo = None \<and>
            fetch (sample_host (online (page 206 [] ''part''))) ?logo = Inr (page 206 [] ''part'') \<and>
            ok (page 206 [] ''part'') \<and> put_rejects ?logo (page 206 [] ''part'')"
    by (simp add: sample_match_logo sample_fetch online_def put_rejects_206)
       (simp add: ok_def page_def)
  have c5: "caches_match_request sample_storage ?guide = None \<and>
            fetch (sample_host offline) ?guide = Inl (TypeError ''Failed to fetch'') \<and>
            mode ?guide = ''navigate'' \<and>
            caches_match sample_storage (resolve (sample_host offline) ''./index.html'') =
              Some (page 200 [] ''<html>'')"
    by (simp add: sample_match_guide sample_fetch offline_def sample_resolve_index
          sample_match_index) (simp add: get_def)
  have c6: "caches_match_request sample_storage ?logo = None \<and>
            fetch (sample_host offline) ?logo = Inl (TypeError ''Failed to fetch'') \<and>
            (mode ?logo \<noteq> ''navigate'' \<or>
             caches_match sample_storage (resolve (sample_host offline) ''./index.html'') = None)"
    by (simp add: sample_match_logo sample_fetch offline_def) (simp add: get_def)
  from c1 cacheFirst_behaviour [of sample_storage ?font "sample_host offline"]
  have r1: "cacheFirst (sample_host offline) sample_storage ?font =
     (Some (page 200 [(''date'', ''Sun, 01 Jan 2023 00:00:00 GMT'')] ''font''), sample_storage)"
    by blast
  from c2 cacheFirst_behaviour [of sample_storage ?logo "sample_host (online (page 200 [] ''ok''))"]
  have r2: "fst (cacheFirst (sample_host (online (page 200 [] ''ok''))) sample_storage ?logo) =
              Some (page 200 [] ''ok'') \<and>
            caches_match_request
              (snd (cacheFirst (sample_host (online (page 200 [] ''ok''))) sample_storage ?logo))
              ?logo = Some (page 200 [] ''ok'')"
    by blast
  from c3 cacheFirst_behaviour [of sample_storage ?logo "sample_host (online (page 404 [] ''gone''))"]
  have r3: "cacheFirst (sample_host (online (page 404 [] ''gone''))) sample_storage ?logo =
              (Some (page 404 [] ''gone''), sample_storage)"
    by blast
  from c4 cacheFirst_behaviour [of sample_storage ?logo "sample_host (online (page 206 [] ''part''))"]
  have r4: "cache_of (snd (cacheFirst (sample_host (online (page 206 [] ''part''))) sample_storage ?logo))
              STATIC_CACHE = cache_of sample_storage STATIC_CACHE"
    by blast
  from c5 cacheFirst_behaviour [of sample_storage ?guide "sample_host offline"]
  have r5: "cacheFirst (sample_host offline) sample_storage ?guide =
              (Some (page 200 [] ''<html>''), sample_storage)"
    by blast
  from c6 cacheFirst_behaviour [of sample_storage ?logo "sample_host offline"]
  have r6: "cacheFirst (sample_host offline) sample_storage ?logo =
     (Some (offline_response (sample_host offline) ''Network error and no cached version available''),
      sample_storage)"
    by blast
  from r1 r2 r3 r4 r5 r6 show ?thesis
    by blast
qed

text \<open>
  Claim C5. \<open>networkFirst\<close> fetches first and answers the network response. A
  successful response that the cache accepts is stored under the request's URL in the
  dynamic cache, every other entry and cache staying as it was; after an unsuccessful
  response the storage is the one it was, and after a response that \<open>put\<close> refuses no
  cache has gained or lost an entry. When the fetch fails it answers the stored copy
  if \<open>caches.match\<close> finds one in some cache, else for a navigation request the cached
  \<open>./index.html\<close> if there is one, else the synthesized error response; the storage
  is unchanged.
\<close>

theorem networkFirst_behaviour:
  "(\<forall>net. fetch h req = Inr net \<longrightarrow> fst (networkFirst h cs req) = Some net) \<and>
   (\<forall>net. fetch h req = Inr net \<and> ok net \<and> \<not> put_rejects req net \<longrightarrow>
      cache_match (cache_of (snd (networkFirst h cs req)) DYNAMIC_CACHE) (url req) = Some net \<and>
      (\<forall>k. exclude_fragment k \<noteq> exclude_fragment (url req) \<longrightarrow>
         cache_match (cache_of (snd (networkFirst h cs req)) DYNAMIC_CACHE) k =
         cache_match (cache_of cs DYNAMIC_CACHE) k) \<and>
      (\<forall>name. name \<noteq> DYNAMIC_CACHE \<longrightarrow>
         map_of (snd (networkFirst h cs req)) name = map_of cs name)) \<and>
   (\<forall>net. fetch h req = Inr net \<and> \<not> ok net \<longrightarrow> networkFirst h cs req = (Some net, cs)) \<and>
   (\<forall>net. fetch h req = Inr net \<and> ok net \<and> put_rejects req net \<longrightarrow>
      (\<forall>name. cache_of (snd (networkFirst h cs req)) name = cache_of cs name)) \<and>
   (\<forall>e r. fetch h req = Inl e \<and> caches_match_request cs req = Some r \<longrightarrow>
      networkFirst h cs req = (Some r, cs)) \<and>
   (\<forall>e fb. fetch h req = Inl e \<and> caches_match_request cs req = None \<and>
      mode req = ''navigate'' \<and> caches_match cs (resolve h ''./index.html'') = Some fb \<longrightarrow>
      networkFirst h cs req = (Some fb, cs)) \<and>
   (\<forall>e. fetch h req = Inl e \<and> caches_match_request cs req = None \<and>
      (mode req \<noteq> ''navigate'' \<or> caches_match cs (resolve h ''./index.html'') = None) \<longrightarrow>
      networkFirst h cs req = (Some (offline_response h ''Offline - No network connection''), cs))"
proof (intro conjI allI impI)
  fix net
  assume "fetch h req = Inr net"
  then show "fst (networkFirst h cs req) = Some net"
    by (simp add: networkFirst_def)
next
  fix net
  assume a: "fetch h req = Inr net \<and> ok net \<and> \<not> put_rejects req net"
  then have eq: "networkFirst h cs req =
      (Some net, on_cache DYNAMIC_CACHE (\<lambda>c. cache_store c (url req) net) (caches_open cs DYNAMIC_CACHE))"
    by (simp add: networkFirst_fetched_stored)
  show "cache_match (cache_of (snd (networkFirst h cs req)) DYNAMIC_CACHE) (url req) = Some net"
    by (simp add: eq cache_match_open_store)
  {
    fix k
    assume "exclude_fragment k \<noteq> exclude_fragment (url req)"
    then show "cache_match (cache_of (snd (networkFirst h cs req)) DYNAMIC_CACHE) k =
               cache_match (cache_of cs DYNAMIC_CACHE) k"
      by (simp add: eq cache_match_open_store)
  }
  {
    fix name :: string
    assume "name \<noteq> DYNAMIC_CACHE"
    then show "map_of (snd (networkFirst h cs req)) name = map_of cs name"
      by (simp add: eq map_of_open_store_other)
  }
next
  fix net
  assume "fetch h req = Inr net \<and> \<not> ok net"
  then show "networkFirst h cs req = (Some net, cs)"
    by (simp add: networkFirst_fetched_not_ok)
next
  fix net name
  assume "fetch h req = Inr net \<and> ok net \<and> put_rejects req net"
  then show "cache_of (snd (networkFirst h cs req)) name = cache_of cs name"
    by (simp add: networkFirst_fetched_refused cache_of_caches_open)
next
  fix e r
  assume "fetch h req = Inl e \<and> caches_match_request cs req = Some r"
  then show "networkFirst h cs req = (Some r, cs)"
    by (simp add: networkFirst_cached)
next
  fix e fb
  assume "fetch h req = Inl e \<and> caches_match_request cs req = None \<and>
      mode req = ''navigate'' \<and> caches_match cs (resolve h ''./index.html'') = Some fb"
  then show "networkFirst h cs req = (Some fb, cs)"
    by (simp add: networkFirst_fallback)
next
  fix e
  assume "fetch h req = Inl e \<and> caches_match_request cs req = None \<and>
      (mode req \<noteq> ''navigate'' \<or> caches_match cs (resolve h ''./index.html'') = None)"
  then show "networkFirst h cs req =
               (Some (offline_response h ''Offline - No network connection''), cs)"
    using networkFirst_offline [of h req e cs] by blast
qed

theorem networkFirst_behaviour_witness:
  "fst (networkFirst (sample_host (online (page 200 [] ''ok''))) sample_storage
          (get ''https://office.example/api/month'' ''cors'')) = Some (page 200 [] ''ok'') \<and>
   cache_match (cache_of (snd (networkFirst (sample_host (online (page 200 [] ''ok''))) sample_storage
          (get ''https://office.example/api/month'' ''cors''))) DYNAMIC_CACHE)
     (url (get ''https://office.example/api/month'' ''cors'')) = Some (page 200 [] ''ok'') \<and>
   networkFirst (sample_host (online (page 404 [] ''gone''))) sample_storage
       (get ''https://office.example/api/month'' ''cors'') =
     (Some (page 404 [] ''gone''), sample_storage) \<and>
   cache_of (snd (networkFirst (sample_host (online (page 206 [] ''part''))) sample_storage
       (get ''https://office.example/api/month'' ''cors''))) DYNAMIC_CACHE =
     cache_of sample_storage DYNAMIC_CACHE \<and>
   networkFirst (sample_host offline) sample_storage
       (get ''https://office.example/api/staff#top'' ''cors'') =
     (Some (page 200 [(''date'', ''Sun, 15 Oct 2023 22:13:20 GMT'')] ''[2]''), sample_storage) \<and>
   networkFirst (sample_host offline) sample_storage (get ''https://office.example/report'' ''navigate'') =
     (Some (page 200 [] ''<html>''), sample_storage) \<and>
   networkFirst (sample_host offline) sample_storage (get ''https://office.example/api/month'' ''cors'') =
     (Some (offline_response (sample_host offline) ''Offline - No network connection''), sample_storage)"
proof -
  let ?month = "get ''https://office.example/api/month'' ''cors''"
  let ?staff = "get ''https://office.example/api/staff#top'' ''cors''"
  let ?report = "get ''https://office.example/report'' ''navigate''"
  have c1: "fetch (sample_host (online (page 200 [] ''ok''))) ?month = Inr (page 200 [] ''ok'') \<and>
            ok (page 200 [] ''ok'') \<and> \<not> put_rejects ?month (page 200 [] ''ok'')"
    by (simp add: sample_fetch online_def ok_def page_def [of 200]
          put_accepts_get_https [unfolded page_def])
  have c2: "fetch (sample_host (online (page 404 [] ''gone''))) ?month = Inr (page 404 [] ''gone'') \<and>
            \<not> ok (page 404 [] ''gone'')"
    by (simp add: sample_fetch online_def ok_def page_def)
  have c3: "fetch (sample_host (online (page 206 [] ''part''))) ?month = Inr (page 206 [] ''part'') \<and>
            ok (page 206 [] ''part'') \<and> put_rejects ?month (page 206 [] ''part'')"
    by (simp add: sample_fetch online_def put_rejects_206) (simp add: ok_def page_def)
  have c4: "fetch (sample_host offline) ?staff = Inl (TypeError ''Failed to fetch'') \<and>
            caches_match_request sample_storage ?staff =
              Some (page 200 [(''date'', ''Sun, 15 Oct 2023 22:13:20 GMT'')] ''[2]'')"
    by (simp add: sample_fetch offline_def sample_match_staff)
  have c5: "fetch (sample_host offline) ?report = Inl (TypeError ''Failed to fetch'') \<and>
            caches_match_request sample_storage ?report = None \<and>
            mode ?report = ''navigate'' \<and>
            caches_match sample_storage (resolve (sample_host offline) ''./index.html'') =
              Some (page 200 [] ''<html>'')"
    by (simp add: sample_match_report sample_fetch offline_def sample_resolve_index
          sample_match_index) (simp add: get_def)
  have c6: "fetch (sample_host offline) ?month = Inl (TypeError ''Failed to fetch'') \<and>
            caches_match_request sample_storage ?month = None \<and>
            (mode ?month \<noteq> ''navigate'' \<or>
             caches_match sample_storage (resolve (sample_host offline) ''./index.html'') = None)"
    by (simp add: sample_match_month sample_fetch offline_def) (simp add: get_def)
  from c1 networkFirst_behaviour [of "sample_host (online (page 200 [] ''ok''))" ?month sample_storage]
  have r1: "fst (networkFirst (sample_host (online (page 200 [] ''ok''))) sample_storage ?month) =
              Some (page 200 [] ''ok'') \<and>
            cache_match (cache_of (snd (networkFirst (sample_host (online (page 200 [] ''ok'')))
              sample_storage ?month)) DYNAMIC_CACHE) (url ?month) = Some (page 200 [] ''ok'')"
    by blast
  from c2 networkFirst_behaviour [of "sample_host (online (page 404 [] ''gone''))" ?month sample_storage]
  have r2: "networkFirst (sample_host (online (page 404 [] ''gone''))) sample_storage ?month =
              (Some (page 404 [] ''gone''), sample_storage)"
    by blast
  from c3 networkFirst_behaviour [of "sample_host (online (page 206 [] ''part''))" ?month sample_storage]
  have r3: "cache_of (snd (networkFirst (sample_host (online (page 206 [] ''part''))) sample_storage ?month))
              DYNAMIC_CACHE = cache_of sample_storage DYNAMIC_CACHE"
    by blast
  from c4 networkFirst_behaviour [of "sample_host offline" ?staff sample_storage]
  have r4: "networkFirst (sample_host offline) sample_storage ?staff =
     (Some (page 200 [(''date'', ''Sun, 15 Oct 2023 22:13:20 GMT'')] ''[2]''), sample_storage)"
    by blast
  from c5 networkFirst_behaviour [of "sample_host offline" ?report sample_storage]
  have r5: "networkFirst (sample_host offline) sample_storage ?report =
              (Some (page 200 [] ''<html>''), sample_storage)"
    by blast
  from c6 networkFirst_behaviour [of "sample_host offline" ?month sample_storage]
  have r6: "networkFirst (sample_host offline) sample_storage ?month =
     (Some (offline_response (sample_host offline) ''Offline - No network connection''), sample_storage)"
    by blast
  from r1 r2 r3 r4 r5 r6 show ?thesis
    by blast
qed

section \<open>Requests for the CDN\<close>

lemma cdn_storage_reached:
  "snd (fetch_listener (sample_host (online (page 200 [] ''chart'')))
          (snd (fetch_listener (sample_host (online (page 200 [] ''jspdf''))) []
                  (get jspdf_url ''no-cors'')))
          (get chart_url ''no-cors'')) = cdn_storage"
  by code_simp

lemma wf_cdn_storage: "wf_storage cdn_storage"
  using wf_fetch_listener [OF wf_fetch_listener [OF wf_empty]] cdn_storage_reached
  by metis

lemma caches_open_cdn: "caches_open cdn_storage DYNAMIC_CACHE = cdn_storage"
  by (rule caches_open_present) (simp add: caches_keys_def cdn_storage_def)

lemma routed_chart:
  "fetch_listener (sample_host f) cs (get chart_url m) =
     respondWith (staleWhileRevalidate (sample_host f) cs (get chart_url m))"
  by (simp add: fetch_listener_def get_def chart_url_def CORE_FILES_def sample_host_def)

lemma routed_moment:
  "fetch_listener (sample_host f) cs (get moment_url m) =
     respondWith (staleWhileRevalidate (sample_host f) cs (get moment_url m))"
  by (simp add: fetch_listener_def get_def moment_url_def CORE_FILES_def sample_host_def)

lemma routed_jspdf_fragment:
  "fetch_listener (sample_host f) cs (get (jspdf_url @ ''#v'') m) =
     respondWith (staleWhileRevalidate (sample_host f) cs (get (jspdf_url @ ''#v'') m))"
  by (simp add: fetch_listener_def get_def jspdf_url_def CORE_FILES_def sample_host_def)

lemma cdn_dynamic_chart:
  "cache_match_request (cache_of cdn_storage DYNAMIC_CACHE) (get chart_url m) =
     Some (page 200 [] ''chart'')"
  by (simp add: cache_match_request_def get_def cache_of_def cdn_storage_def cache_match_def
        STATIC_CACHE_def DYNAMIC_CACHE_def)

lemma cdn_dynamic_moment:
  "cache_match_request (cache_of cdn_storage DYNAMIC_CACHE) (get moment_url m) = None"
  by (simp add: cache_match_request_def get_def cache_of_def cdn_storage_def cache_match_def
        STATIC_CACHE_def DYNAMIC_CACHE_def chart_url_def moment_url_def exclude_fragment_def)

lemma cdn_dynamic_jspdf:
  "cache_match_request (cache_of cdn_storage DYNAMIC_CACHE) (get (jspdf_url @ ''#v'') m) = None"
  by (simp add: cache_match_request_def get_def cache_of_def cdn_storage_def cache_match_def
        STATIC_CACHE_def DYNAMIC_CACHE_def chart_url_def jspdf_url_def exclude_fragment_def)

lemma cdn_match_jspdf:
  "caches_match_request cdn_storage (get (jspdf_url @ ''#v'') m) = Some (page 200 [] ''jspdf'')"
  by (simp add: caches_match_request_def get_def cdn_storage_def cache_match_def
        jspdf_url_def exclude_fragment_def)

lemma cdn_match_moment:
  "caches_match_request cdn_storage (get moment_url m) = None"
  by (simp add: caches_match_request_def get_def cdn_storage_def cache_match_def
        jspdf_url_def chart_url_def moment_url_def exclude_fragment_def)

section \<open>The offline answer of stale-while-revalidate\<close>

text \<open>
  Claim C1 does not hold of the code. The listener sends a script of the CDN that is
  not a core file to \<open>staleWhileRevalidate\<close>. With the network down and the script in
  no cache, the \<open>catch\<close> of the fetch answers \<open>null\<close>, there is no stored copy to put
  before it, and the strategy hands \<open>null\<close> to \<open>respondWith\<close>: no response of status
  503, and no response at all. \<open>cacheFirst\<close> and \<open>networkFirst\<close> synthesize the 503
  response in the same situation (lemma \<open>offline_uncached_gives_503\<close>).
\<close>

theorem staleWhileRevalidate_offline_uncached_null:
  "fetch (sample_host offline) (get moment_url ''no-cors'') = Inl (TypeError ''Failed to fetch'') \<and>
   caches_match_request cdn_storage (get moment_url ''no-cors'') = None \<and>
   fetch_listener (sample_host offline) cdn_storage (get moment_url ''no-cors'') =
     respondWith (staleWhileRevalidate (sample_host offline) cdn_storage (get moment_url ''no-cors'')) \<and>
   staleWhileRevalidate (sample_host offline) cdn_storage (get moment_url ''no-cors'') =
     (None, cdn_storage) \<and>
   fetch_listener (sample_host offline) cdn_storage (get moment_url ''no-cors'') =
     (Some None, cdn_storage)"
proof -
  let ?h = "sample_host offline"
  let ?req = "get moment_url ''no-cors''"
  have f: "fetch ?h ?req = Inl (TypeError ''Failed to fetch'')"
    by (simp add: sample_fetch offline_def)
  have m: "caches_match_request cdn_storage ?req = None"
    by (rule cdn_match_moment)
  have r: "fetch_listener ?h cdn_storage ?req = respondWith (staleWhileRevalidate ?h cdn_storage ?req)"
    by (rule routed_moment)
  have "fst (staleWhileRevalidate ?h cdn_storage ?req) = None"
    by (simp add: staleWhileRevalidate_result cdn_dynamic_moment f)
  moreover have "snd (staleWhileRevalidate ?h cdn_storage ?req) = cdn_storage"
    by (simp add: staleWhileRevalidate_storage f caches_open_cdn)
  ultimately have s: "staleWhileRevalidate ?h cdn_storage ?req = (None, cdn_storage)"
    by (simp add: prod_eq_iff)
  from r s have l: "fetch_listener ?h cdn_storage ?req = (Some None, cdn_storage)"
    by (simp add: respondWith_def)
  from f m r s l show ?thesis
    by blast
qed

section \<open>Claims about stale-while-revalidate and the stored copy\<close>

text \<open>
  Claim C2, as the code has it. \<open>staleWhileRevalidate\<close> answers the copy stored in the
  dynamic cache whenever there is one: immediately, in that the answer is the stored
  copy whatever the network does. It fetches in every case, and the outcome of the
  fetch settles the storage in the background: a successful response that the cache
  accepts replaces the entry of the request in the dynamic cache and nothing else, and
  after an unsuccessful response or a failed fetch every cache holds the entries it
  held before.
\<close>

theorem staleWhileRevalidate_behaviour:
  "(\<forall>r. cache_match_request (cache_of cs DYNAMIC_CACHE) req = Some r \<longrightarrow>
      fst (staleWhileRevalidate h cs req) = Some r) \<and>
   (\<forall>net. fetch h req = Inr net \<and> ok net \<and> \<not> put_rejects req net \<longrightarrow>
      cache_match (cache_of (snd (staleWhileRevalidate h cs req)) DYNAMIC_CACHE) (url req) = Some net \<and>
      (\<forall>k. exclude_fragment k \<noteq> exclude_fragment (url req) \<longrightarrow>
         cache_match (cache_of (snd (staleWhileRevalidate h cs req)) DYNAMIC_CACHE) k =
         cache_match (cache_of cs DYNAMIC_CACHE) k) \<and>
      (\<forall>name. name \<noteq> DYNAMIC_CACHE \<longrightarrow>
         cache_of (snd (staleWhileRevalidate h cs req)) name = cache_of cs name)) \<and>
   (\<forall>net. fetch h req = Inr net \<and> \<not> ok net \<longrightarrow>
      (\<forall>name. cache_of (snd (staleWhileRevalidate h cs req)) name = cache_of cs name)) \<and>
   (\<forall>e. fetch h req = Inl e \<longrightarrow>
      (\<forall>name. cache_of (snd (staleWhileRevalidate h cs req)) name = cache_of cs name))"
proof (intro conjI allI impI)
  fix r
  assume "cache_match_request (cache_of cs DYNAMIC_CACHE) req = Some r"
  then show "fst (staleWhileRevalidate h cs req) = Some r"
    by (simp add: staleWhileRevalidate_result)
next
  fix net
  assume "fetch h req = Inr net \<and> ok net \<and> \<not> put_rejects req net"
  then have eq: "snd (staleWhileRevalidate h cs req) =
      on_cache DYNAMIC_CACHE (\<lambda>c. cache_store c (url req) net) (caches_open cs DYNAMIC_CACHE)"
    by (simp add: staleWhileRevalidate_storage)
  show "cache_match (cache_of (snd (staleWhileRevalidate h cs req)) DYNAMIC_CACHE) (url req) = Some net"
    by (simp add: eq cache_match_open_store)
  {
    fix k
    assume "exclude_fragment k \<noteq> exclude_fragment (url req)"
    then show "cache_match (cache_of (snd (staleWhileRevalidate h cs req)) DYNAMIC_CACHE) k =
               cache_match (cache_of cs DYNAMIC_CACHE) k"
      by (simp add: eq cache_match_open_store)
  }
  {
    fix name :: string
    assume "name \<noteq> DYNAMIC_CACHE"
    then show "cache_of (snd (staleWhileRevalidate h cs req)) name = cache_of cs name"
      by (simp add: eq cache_of_on_cache_other cache_of_caches_open)
  }
next
  fix net name
  assume "fetch h req = Inr net \<and> \<not> ok net"
  then show "cache_of (snd (staleWhileRevalidate h cs req)) name = cache_of cs name"
    by (simp add: staleWhileRevalidate_storage cache_of_caches_open)
next
  fix e name
  assume "fetch h req = Inl e"
  then show "cache_of (snd (staleWhileRevalidate h cs req)) name = cache_of cs name"
    by (simp add: staleWhileRevalidate_storage cache_of_caches_open)
qed

theorem staleWhileRevalidate_behaviour_witness:
  "fst (staleWhileRevalidate (sample_host (online (page 200 [] ''new''))) cdn_storage
          (get chart_url ''no-cors'')) = Some (page 200 [] ''chart'') \<and>
   cache_match (cache_of (snd (staleWhileRevalidate (sample_host (online (page 200 [] ''new'')))
          cdn_storage (get chart_url ''no-cors''))) DYNAMIC_CACHE)
     (url (get chart_url ''no-cors'')) = Some (page 200 [] ''new'') \<and>
   cache_of (snd (staleWhileRevalidate (sample_host (online (page 404 [] ''gone''))) cdn_storage
          (get chart_url ''no-cors''))) DYNAMIC_CACHE =
     cache_of cdn_storage DYNAMIC_CACHE \<and>
   cache_of (snd (staleWhileRevalidate (sample_host offline) cdn_storage
          (get chart_url ''no-cors''))) DYNAMIC_CACHE =
     cache_of cdn_storage DYNAMIC_CACHE"
proof -
  let ?chart = "get chart_url ''no-cors''"
  have c1: "cache_match_request (cache_of cdn_storage DYNAMIC_CACHE) ?chart = Some (page 200 [] ''chart'')"
    by (rule cdn_dynamic_chart)
  have "take 8 chart_url = ''https://''"
    by (simp add: chart_url_def)
  then have c2: "fetch (sample_host (online (page 200 [] ''new''))) ?chart = Inr (page 200 [] ''new'') \<and>
            ok (page 200 [] ''new'') \<and> \<not> put_rejects ?chart (page 200 [] ''new'')"
    by (simp add: sample_fetch online_def put_accepts_get_https) (simp add: ok_def page_def)
  have c3: "fetch (sample_host (online (page 404 [] ''gone''))) ?chart = Inr (page 404 [] ''gone'') \<and>
            \<not> ok (page 404 [] ''gone'')"
    by (simp add: sample_fetch online_def ok_def page_def)
  have c4: "fetch (sample_host offline) ?chart = Inl (TypeError ''Failed to fetch'')"
    by (simp add: sample_fetch offline_def)
  from c1 staleWhileRevalidate_behaviour [of cdn_storage ?chart "sample_host (online (page 200 [] ''new''))"]
  have r1: "fst (staleWhileRevalidate (sample_host (online (page 200 [] ''new''))) cdn_storage ?chart) =
              Some (page 200 [] ''chart'')"
    by blast
  from c2 staleWhileRevalidate_behaviour [of cdn_storage ?chart "sample_host (online (page 200 [] ''new''))"]
  have r2: "cache_match (cache_of (snd (staleWhileRevalidate (sample_host (online (page 200 [] ''new'')))
              cdn_storage ?chart)) DYNAMIC_CACHE) (url ?chart) = Some (page 200 [] ''new'')"
    by blast
  from c3 staleWhileRevalidate_behaviour [of cdn_storage ?chart "sample_host (online (page 404 [] ''gone''))"]
  have r3: "cache_of (snd (staleWhileRevalidate (sample_host (online (page 404 [] ''gone'')))
              cdn_storage ?chart)) DYNAMIC_CACHE = cache_of cdn_storage DYNAMIC_CACHE"
    by blast
  from c4 staleWhileRevalidate_behaviour [of cdn_storage ?chart "sample_host offline"]
  have r4: "cache_of (snd (staleWhileRevalidate (sample_host offline) cdn_storage ?chart)) DYNAMIC_CACHE =
              cache_of cdn_storage DYNAMIC_CACHE"
    by blast
  from r1 r2 r3 r4 show ?thesis
    by blast
qed

text \<open>
  The claim as the spec words it fails on \<open>cdn_storage\<close>, the storage a worker has
  after one online request for each of two scripts (lemma \<open>cdn_storage_reached\<close>),
  at requests that the listener sends to \<open>staleWhileRevalidate\<close>. The network answers
  404 to the request for the chart script: the strategy answers the stored copy and
  does not overwrite it. The network answers 206, a successful status: \<open>put\<close> refuses
  the response and the stored copy is not overwritten either. And a request for the
  core script with a fragment finds its stored copy through \<open>caches.match\<close>, in the
  static cache, but the strategy looks only into the dynamic cache and answers the 404
  response.
\<close>

theorem staleWhileRevalidate_counterexample:
  "fetch_listener (sample_host (online (page 404 [] ''gone''))) cdn_storage (get chart_url ''no-cors'') =
     respondWith (staleWhileRevalidate (sample_host (online (page 404 [] ''gone''))) cdn_storage
                    (get chart_url ''no-cors'')) \<and>
   fetch (sample_host (online (page 404 [] ''gone''))) (get chart_url ''no-cors'') =
     Inr (page 404 [] ''gone'') \<and>
   staleWhileRevalidate (sample_host (online (page 404 [] ''gone''))) cdn_storage
       (get chart_url ''no-cors'') = (Some (page 200 [] ''chart''), cdn_storage) \<and>
   fetch (sample_host (online (page 206 [] ''part''))) (get chart_url ''no-cors'') =
     Inr (page 206 [] ''part'') \<and>
   ok (page 206 [] ''part'') \<and>
   staleWhileRevalidate (sample_host (online (page 206 [] ''part''))) cdn_storage
       (get chart_url ''no-cors'') = (Some (page 200 [] ''chart''), cdn_storage) \<and>
   cache_match (cache_of cdn_storage DYNAMIC_CACHE) chart_url = Some (page 200 [] ''chart'') \<and>
   fetch_listener (sample_host (online (page 404 [] ''gone''))) cdn_storage
       (get (jspdf_url @ ''#v'') ''no-cors'') =
     respondWith (staleWhileRevalidate (sample_host (online (page 404 [] ''gone''))) cdn_storage
                    (get (jspdf_url @ ''#v'') ''no-cors'')) \<and>
   caches_match_request cdn_storage (get (jspdf_url @ ''#v'') ''no-cors'') =
     Some (page 200 [] ''jspdf'') \<and>
   fst (staleWhileRevalidate (sample_host (online (page 404 [] ''gone''))) cdn_storage
          (get (jspdf_url @ ''#v'') ''no-cors'')) = Some (page 404 [] ''gone'')"
proof -
  let ?h = "sample_host (online (page 404 [] ''gone''))"
  let ?p = "sample_host (online (page 206 [] ''part''))"
  let ?chart = "get chart_url ''no-cors''"
  let ?jspdf = "get (jspdf_url @ ''#v'') ''no-cors''"
  have f: "\<And>req. fetch ?h req = Inr (page 404 [] ''gone'')"
    by (simp add: sample_fetch online_def)
  have g: "\<And>req. fetch ?p req = Inr (page 206 [] ''part'')"
    by (simp add: sample_fetch online_def)
  have nok: "\<not> ok (page 404 [] ''gone'')"
    by (simp add: ok_def page_def)
  have ok206: "ok (page 206 [] ''part'')"
    by (simp add: ok_def page_def)
  have a: "staleWhileRevalidate ?h cdn_storage ?chart = (Some (page 200 [] ''chart''), cdn_storage)"
    by (simp add: prod_eq_iff staleWhileRevalidate_result staleWhileRevalidate_storage
          cdn_dynamic_chart f nok caches_open_cdn)
  have b: "staleWhileRevalidate ?p cdn_storage ?chart = (Some (page 200 [] ''chart''), cdn_storage)"
    by (simp add: prod_eq_iff staleWhileRevalidate_result staleWhileRevalidate_storage
          cdn_dynamic_chart g put_rejects_206 caches_open_cdn)
  have c: "cache_match (cache_of cdn_storage DYNAMIC_CACHE) chart_url = Some (page 200 [] ''chart'')"
    using cdn_dynamic_chart [of "''no-cors''"]
    by (simp add: cache_match_request_def get_def)
  have d: "fst (staleWhileRevalidate ?h cdn_storage ?jspdf) = Some (page 404 [] ''gone'')"
    by (simp add: staleWhileRevalidate_result cdn_dynamic_jspdf f)
  from routed_chart [of "online (page 404 [] ''gone'')" cdn_storage "''no-cors''"]
    routed_jspdf_fragment [of "online (page 404 [] ''gone'')" cdn_storage "''no-cors''"]
    f [of ?chart] g [of ?chart] ok206 a b c d cdn_match_jspdf [of "''no-cors''"]
  show ?thesis
    by blast
qed




end
